theory Spec2Isabelle
  imports Complex_Main "HOL-Library.AList"
begin

section \<open>Colours\<close>

text \<open>
  The colour values handed to the callback of \<^verbatim>\<open>processIconSet\<close> are the tagged
  unions of \<^verbatim>\<open>@iconify/utils/lib/colors\<close>. That package is a dependency, its code is
  not part of \<^verbatim>\<open>src/index.ts\<close>; the type below follows its \<^verbatim>\<open>type\<close> tags, with the
  numeric channels as exact rationals.
\<close>

datatype color =
    NoColor
  | TransparentColor
  | CurrentColor
  | RGBColor rat rat rat rat
  | HSLColor rat rat rat rat
  | LABColor rat rat rat rat
  | LCHColor rat rat rat rat
  | FunctionColor string string

text \<open>
  Modelled from the spec: \<^verbatim>\<open>isEmptyColor\<close> of \<^verbatim>\<open>@iconify/tools\<close> is missing from the
  sources. The spec (4.4, step 1) and the comment at the call site
  (\<^verbatim>\<open>Color is empty: 'none' or 'transparent'\<close>) say which values it accepts.
\<close>

fun isEmptyColor :: "color \<Rightarrow> bool" where
  "isEmptyColor NoColor = True"
| "isEmptyColor TransparentColor = True"
| "isEmptyColor _ = False"

text \<open>
  Modelled from the spec: \<^verbatim>\<open>compareColors\<close> of \<^verbatim>\<open>@iconify/utils\<close> is missing from the
  sources. The spec (4.4, steps 3 and 4) describes it as exact structural and numeric
  equality of the parsed values, not a perceptual distance.
\<close>

definition compareColors :: "color \<Rightarrow> color \<Rightarrow> bool" where
  "compareColors color1 color2 = (color1 = color2)"

text \<open>
  Modelled from the spec: \<^verbatim>\<open>stringToColor('black')!\<close> and \<^verbatim>\<open>stringToColor('white')!\<close>
  are the canonical representations of pure black and pure white; the parser itself
  is missing from the sources, so the two values it returns here are written out.
\<close>

definition blackColor :: color where
  "blackColor = RGBColor 0 0 0 1"

definition whiteColor :: color where
  "whiteColor = RGBColor 255 255 255 1"

subsection \<open>The colour callback of \<^verbatim>\<open>processIconSet\<close>\<close>

text \<open>
  The callback returns a \<^verbatim>\<open>Color\<close> object or a string (\<^verbatim>\<open>'currentColor'\<close>,
  \<^verbatim>\<open>'remove'\<close>), or throws an \<^verbatim>\<open>Error\<close> whose message is the left summand. Its
  third argument is the parsed colour, or nothing when the value did not parse.
\<close>

datatype callbackResult = ResColor color | ResString string

definition invalidColorMessage :: "string \<Rightarrow> string \<Rightarrow> string" where
  "invalidColorMessage colorStr attr =
     ''Invalid color: '' @ [CHR 0x22] @ colorStr @ [CHR 0x22] @ '' in attribute '' @ attr"

definition callback :: "string \<Rightarrow> string \<Rightarrow> color option \<Rightarrow> string + callbackResult" where
  "callback attr colorStr color =
     (case color of
        None \<Rightarrow> Inl (invalidColorMessage colorStr attr)
      | Some c \<Rightarrow>
          if isEmptyColor c then Inr (ResColor c)
          else if compareColors c blackColor then Inr (ResString ''currentColor'')
          else if compareColors c whiteColor then Inr (ResString ''remove'')
          else Inr (ResColor c))"

section \<open>Icon sets\<close>

text \<open>
  Modelled from the spec: the class \<^verbatim>\<open>IconSet\<close> of \<^verbatim>\<open>@iconify/tools\<close> and the type
  \<^verbatim>\<open>IconifyJSON\<close> are missing from the sources. Section 3 of the spec describes them: an
  icon set owns an ordered mapping from names to entries, an icon with its stored data
  (body and dimensions, the type \<open>'b\<close>) or an alias that refers to a parent by name,
  and the names of a set are distinct; the exported record has the prefix, the icons,
  the aliases and the time of the last modification. \<open>remove\<close> deletes the entry of a
  name, \<open>export\<close> copies the icons and aliases that are left.
\<close>

datatype 'b item = Icon 'b | Alias string

record 'b iconSet =
  setPrefix :: string
  entries :: "(string \<times> 'b item) list"
  setLastModified :: nat

record 'b iconifyJSON =
  prefix :: string
  icons :: "(string \<times> 'b) list"
  aliases :: "(string \<times> string) list"
  lastModified :: nat

fun exportIcons :: "(string \<times> 'b item) list \<Rightarrow> (string \<times> 'b) list" where
  "exportIcons [] = []"
| "exportIcons ((name, Icon b) # es) = (name, b) # exportIcons es"
| "exportIcons ((name, Alias p) # es) = exportIcons es"

fun exportAliases :: "(string \<times> 'b item) list \<Rightarrow> (string \<times> string) list" where
  "exportAliases [] = []"
| "exportAliases ((name, Icon b) # es) = exportAliases es"
| "exportAliases ((name, Alias p) # es) = (name, p) # exportAliases es"

definition export :: "'b iconSet \<Rightarrow> 'b iconifyJSON" where
  "export s =
     \<lparr>prefix = setPrefix s, icons = exportIcons (entries s),
      aliases = exportAliases (entries s), lastModified = setLastModified s\<rparr>"

definition remove :: "string \<Rightarrow> 'b iconSet \<Rightarrow> 'b iconSet" where
  "remove name s = s\<lparr>entries := AList.delete name (entries s)\<rparr>"

subsection \<open>The library calls, as parameters\<close>

text \<open>
  The stages of \<^verbatim>\<open>@iconify/tools\<close> that \<^verbatim>\<open>processIconSet\<close> and the two import functions
  call are not part of the sources. They are parameters of the model: each stage maps
  a document (type \<open>'svg\<close>) to a new document or throws (\<open>Inl\<close> with the message),
  \<open>loadSVG\<close> builds the SVG instance of stored icon data (\<open>None\<close> when no instance can
  be obtained) and \<open>getBody\<close> turns an instance back into stored data.
  \<open>importDirectorySync\<close> maps a directory (the list of its path segments) and the flag
  \<^verbatim>\<open>includeSubDirs\<close> to the icon set it loads, or throws; the files it skips under
  \<^verbatim>\<open>ignoreImportErrors: 'warn'\<close> are simply not in that set. \<open>parseColors\<close> takes the
  default colour and the callback.
\<close>

record ('b, 'svg) tools =
  loadSVG :: "'b \<Rightarrow> 'svg option"
  getBody :: "'svg \<Rightarrow> 'b"
  cleanupSVG :: "'svg \<Rightarrow> string + 'svg"
  parseColors ::
    "string \<Rightarrow> (string \<Rightarrow> string \<Rightarrow> color option \<Rightarrow> string + callbackResult) \<Rightarrow>
     'svg \<Rightarrow> string + 'svg"
  runSVGO :: "'svg \<Rightarrow> string + 'svg"
  deOptimisePaths :: "'svg \<Rightarrow> string + 'svg"
  importDirectorySync :: "string list \<Rightarrow> bool \<Rightarrow> string + 'b iconSet"

text \<open>
  Modelled from the spec: the methods \<^verbatim>\<open>toSVG\<close> and \<^verbatim>\<open>fromSVG\<close> of \<^verbatim>\<open>IconSet\<close> are
  missing from the sources. The first builds the SVG instance of the icon stored under
  a name, and gives nothing when there is no such icon or no instance can be built;
  the second stores the data of an instance under a name, in place of what was there
  (spec, section 9: the instance is detached and written back explicitly).
\<close>

definition toSVG :: "('b, 'svg) tools \<Rightarrow> 'b iconSet \<Rightarrow> string \<Rightarrow> 'svg option" where
  "toSVG T s name =
     (case map_of (entries s) name of
        Some (Icon b) \<Rightarrow> loadSVG T b
      | _ \<Rightarrow> None)"

definition fromSVG :: "('b, 'svg) tools \<Rightarrow> string \<Rightarrow> 'svg \<Rightarrow> 'b iconSet \<Rightarrow> 'b iconSet" where
  "fromSVG T name svg s = s\<lparr>entries := AList.update name (Icon (getBody T svg)) (entries s)\<rparr>"

subsection \<open>\<^verbatim>\<open>processIconSet\<close>\<close>

text \<open>
  The body of the \<^verbatim>\<open>try\<close> block up to the write-back: clean up, rewrite the colours
  with the callback and the default colour \<^verbatim>\<open>'currentColor'\<close>, optimise, expand the
  paths. The first stage that throws ends the block with its message.
\<close>

definition tryStages :: "('b, 'svg) tools \<Rightarrow> 'svg \<Rightarrow> string + 'svg" where
  "tryStages T svg =
     (case cleanupSVG T svg of
        Inl e \<Rightarrow> Inl e
      | Inr svg1 \<Rightarrow>
          (case parseColors T ''currentColor'' callback svg1 of
             Inl e \<Rightarrow> Inl e
           | Inr svg2 \<Rightarrow>
               (case runSVGO T svg2 of
                  Inl e \<Rightarrow> Inl e
                | Inr svg3 \<Rightarrow> deOptimisePaths T svg3)))"

definition skipWarning :: "string \<Rightarrow> string \<Rightarrow> string" where
  "skipWarning name message =
     ''[importSvgCollection] Skipping icon '' @ [CHR 0x22] @ name @ [CHR 0x22] @ '': '' @ message"

text \<open>
  The state of the loop: the icon set, the list \<^verbatim>\<open>iconsToRemove\<close> and the lines written
  with \<^verbatim>\<open>console.warn\<close>. \<open>forEachCallback\<close> is the function handed to
  \<^verbatim>\<open>forEachSync\<close>: it returns at once for an entry that is not an icon and for an icon
  without SVG instance, writes the result of the stages back, and on an exception warns
  and queues the name. The queued names are removed after the loop. \<^verbatim>\<open>forEachSync\<close>
  itself is library code: it calls the function for every entry of the set with its name
  and type, in order (spec, section 4.5).
\<close>

record 'b loopState =
  iconSet :: "'b iconSet"
  iconsToRemove :: "string list"
  warnings :: "string list"

definition forEachCallback ::
  "('b, 'svg) tools \<Rightarrow> string \<times> 'b item \<Rightarrow> 'b loopState \<Rightarrow> 'b loopState" where
  "forEachCallback T e st =
     (case snd e of
        Alias p \<Rightarrow> st
      | Icon b \<Rightarrow>
          (case toSVG T (iconSet st) (fst e) of
             None \<Rightarrow> st
           | Some svg \<Rightarrow>
               (case tryStages T svg of
                  Inr svg' \<Rightarrow> st\<lparr>iconSet := fromSVG T (fst e) svg' (iconSet st)\<rparr>
                | Inl message \<Rightarrow>
                    st\<lparr>warnings := warnings st @ [skipWarning (fst e) message],
                       iconsToRemove := iconsToRemove st @ [fst e]\<rparr>)))"

definition processIconSet :: "('b, 'svg) tools \<Rightarrow> 'b iconSet \<Rightarrow> 'b iconSet \<times> string list" where
  "processIconSet T s =
     (let st = fold (forEachCallback T) (entries s)
                 \<lparr>iconSet = s, iconsToRemove = [], warnings = []\<rparr>
      in (fold remove (iconsToRemove st) (iconSet st), warnings st))"

text \<open>
  \<^verbatim>\<open>importSvgCollection\<close>: \<^verbatim>\<open>includeSubDirs\<close> defaults to true; an exception of the loader
  reaches the caller. The result carries the console output beside the value.
\<close>

definition importSvgCollection ::
  "('b, 'svg) tools \<Rightarrow> string list \<Rightarrow> bool option \<Rightarrow> (string + 'b iconifyJSON) \<times> string list" where
  "importSvgCollection T source includeSubDirs =
     (case importDirectorySync T source (case includeSubDirs of None \<Rightarrow> True | Some b \<Rightarrow> b) of
        Inl e \<Rightarrow> (Inl e, [])
      | Inr s \<Rightarrow> (let (s', w) = processIconSet T s in (Inr (export s'), w)))"

section \<open>Directory trees\<close>

text \<open>
  The file system below the scan root, as \<^verbatim>\<open>fs.readdirSync(dir, { withFileTypes: true })\<close>
  shows it: a regular file, a directory with its named entries, a directory whose
  listing fails with an error message, or an entry that is neither a file nor a
  directory (a socket, a symbolic link). A path is the list of its segments:
  \<^verbatim>\<open>path.join(dir, entry.name)\<close> appends one segment.
\<close>

datatype fsnode =
    File
  | Dir "(string \<times> fsnode) list"
  | Unreadable string
  | Special

fun isFile :: "fsnode \<Rightarrow> bool" where
  "isFile File = True"
| "isFile _ = False"

fun isDirectory :: "fsnode \<Rightarrow> bool" where
  "isDirectory (Dir es) = True"
| "isDirectory (Unreadable e) = True"
| "isDirectory _ = False"

definition endsWith :: "string \<Rightarrow> string \<Rightarrow> bool" where
  "endsWith name suffix =
     (length suffix \<le> length name \<and> drop (length name - length suffix) name = suffix)"

text \<open>The first loop of \<^verbatim>\<open>traverse\<close>: the flag \<^verbatim>\<open>hasSvgFiles\<close> and the list \<^verbatim>\<open>subdirs\<close>.\<close>

fun hasSvgFiles :: "(string \<times> fsnode) list \<Rightarrow> bool" where
  "hasSvgFiles [] = False"
| "hasSvgFiles ((name, node) # es) =
     (if isFile node \<and> endsWith name ''.svg'' then True else hasSvgFiles es)"

fun subdirs :: "string list \<Rightarrow> (string \<times> fsnode) list \<Rightarrow> (string list \<times> fsnode) list" where
  "subdirs dir [] = []"
| "subdirs dir ((name, node) # es) =
     (if isFile node \<and> endsWith name ''.svg'' then subdirs dir es
      else if isDirectory node then (dir @ [name], node) # subdirs dir es
      else subdirs dir es)"

lemma subdirs_size:
  "sum_list (map (\<lambda>p. Suc (size (snd p))) (subdirs dir es)) \<le> size_list (size_prod (\<lambda>x. 0) size) es"
  by (induction es) auto

text \<open>
  \<^verbatim>\<open>traverse\<close> with the shared list \<^verbatim>\<open>result\<close> passed through. Reading a directory
  that cannot be listed throws, and nothing in \<^verbatim>\<open>traverse\<close>, \<^verbatim>\<open>findSvgDirectories\<close> or
  \<^verbatim>\<open>importSvgCollections\<close> catches it.
\<close>

function traverse :: "string list \<Rightarrow> fsnode \<Rightarrow> string list list \<Rightarrow> string + string list list"
  and traverseAll :: "(string list \<times> fsnode) list \<Rightarrow> string list list \<Rightarrow> string + string list list"
  where
  "traverse dir (Dir es) result =
     traverseAll (subdirs dir es) (if hasSvgFiles es then result @ [dir] else result)"
| "traverse dir (Unreadable e) result = Inl e"
| "traverse dir File result = Inl ''ENOTDIR: not a directory, scandir''"
| "traverse dir Special result = Inl ''ENOTDIR: not a directory, scandir''"
| "traverseAll [] result = Inr result"
| "traverseAll (sub # rest) result =
     (case traverse (fst sub) (snd sub) result of
        Inl e \<Rightarrow> Inl e
      | Inr result' \<Rightarrow> traverseAll rest result')"
  by pat_completeness auto
termination
proof (relation "measure (\<lambda>x. case x of
          Inl (dir, node, result) \<Rightarrow> 2 * size node + 1
        | Inr (subs, result) \<Rightarrow> 2 * sum_list (map (\<lambda>p. Suc (size (snd p))) subs))")
  show "wf (measure (\<lambda>x. case x of
          Inl (dir, node, result) \<Rightarrow> 2 * size node + 1
        | Inr (subs, result) \<Rightarrow> 2 * sum_list (map (\<lambda>p. Suc (size (snd p))) subs)))"
    by simp
next
  fix dir :: "string list" and es :: "(string \<times> fsnode) list" and result :: "string list list"
  show "(Inr (subdirs dir es, if hasSvgFiles es then result @ [dir] else result),
         Inl (dir, Dir es, result))
        \<in> measure (\<lambda>x. case x of
          Inl (dir, node, result) \<Rightarrow> 2 * size node + 1
        | Inr (subs, result) \<Rightarrow> 2 * sum_list (map (\<lambda>p. Suc (size (snd p))) subs))"
    using subdirs_size [of dir es] by simp
qed auto

definition findSvgDirectories :: "string list \<Rightarrow> fsnode \<Rightarrow> string + string list list" where
  "findSvgDirectories rootDir tree = traverse rootDir tree []"

section \<open>\<^verbatim>\<open>importSvgCollections\<close>\<close>

text \<open>
  Every directory found is \<open>source\<close> followed by further segments, so
  \<^verbatim>\<open>path.relative(source, dir)\<close> is what follows \<open>source\<close>, and splitting it at
  \<^verbatim>\<open>path.sep\<close> gives those segments back; they are joined with \<^verbatim>\<open>'-'\<close>.
\<close>

definition relative :: "string list \<Rightarrow> string list \<Rightarrow> string list" where
  "relative source dir = drop (length source) dir"

fun join :: "string \<Rightarrow> string list \<Rightarrow> string" where
  "join sep [] = []"
| "join sep [x] = x"
| "join sep (x # y # ys) = x @ sep @ join sep (y # ys)"

text \<open>A string is truthy when it is defined and not empty.\<close>

definition collectionKey :: "string option \<Rightarrow> string \<Rightarrow> string" where
  "collectionKey prefixOpt pathPrefix =
     (case prefixOpt of
        None \<Rightarrow> pathPrefix
      | Some p \<Rightarrow> if p \<noteq> [] then p @ ''-'' @ pathPrefix else pathPrefix)"

definition pathPrefix :: "string list \<Rightarrow> string list \<Rightarrow> string" where
  "pathPrefix source dir = join ''-'' (relative source dir)"

text \<open>
  The object \<^verbatim>\<open>collections\<close> starts as \<^verbatim>\<open>{}\<close>; the list holds its own properties.
  The assignment \<^verbatim>\<open>collections[key] = exported\<close> replaces the value of an own property
  or adds a new one, for every key but one: \<^verbatim>\<open>__proto__\<close> is an accessor inherited
  from \<^verbatim>\<open>Object.prototype\<close>, and assigning an object to it makes that object the
  prototype of \<^verbatim>\<open>collections\<close> and creates no own property. The prototype is not
  part of the model. The list is in the order of the first assignments, which is the
  order of the keys of the object unless a key is the decimal form of an array index.
\<close>

definition assign :: "string \<Rightarrow> 'v \<Rightarrow> (string \<times> 'v) list \<Rightarrow> (string \<times> 'v) list" where
  "assign key v collections =
     (if key = ''__proto__'' then collections else AList.update key v collections)"

text \<open>
  The loop over \<^verbatim>\<open>svgDirs\<close>. The second component of the result collects the console
  output.
\<close>

fun importLoop ::
  "('b, 'svg) tools \<Rightarrow> string list \<Rightarrow> string option \<Rightarrow> string list list \<Rightarrow>
   (string \<times> 'b iconifyJSON) list \<Rightarrow> string list \<Rightarrow>
   (string + (string \<times> 'b iconifyJSON) list) \<times> string list" where
  "importLoop T source prefixOpt [] collections out = (Inr collections, out)"
| "importLoop T source prefixOpt (dir # dirs) collections out =
     (case importDirectorySync T dir False of
        Inl e \<Rightarrow> (Inl e, out)
      | Inr s \<Rightarrow>
          (let (s', w) = processIconSet T s;
               exported = export s'
           in importLoop T source prefixOpt dirs
                (if length (icons exported) > 0
                 then assign (collectionKey prefixOpt (pathPrefix source dir)) exported collections
                 else collections)
                (out @ w)))"

definition importSvgCollections ::
  "('b, 'svg) tools \<Rightarrow> string list \<Rightarrow> fsnode \<Rightarrow> string option \<Rightarrow>
   (string + (string \<times> 'b iconifyJSON) list) \<times> string list" where
  "importSvgCollections T source tree prefixOpt =
     (case findSvgDirectories source tree of
        Inl e \<Rightarrow> (Inl e, [])
      | Inr svgDirs \<Rightarrow> importLoop T source prefixOpt svgDirs [] [])"

section \<open>The colour rewriter, from its description\<close>

text \<open>
  A document is a tree of elements, each with a tag, its attributes in order and its
  children.
\<close>

datatype element = Element (tag: string) (attribs: "(string \<times> string) list") (children: "element list")

text \<open>
  The colour parser and printer of \<^verbatim>\<open>@iconify/utils\<close> (\<^verbatim>\<open>stringToColor\<close>,
  \<^verbatim>\<open>colorToString\<close>) stay parameters.
\<close>

record colorLib =
  stringToColor :: "string \<Rightarrow> color option"
  colorToString :: "color \<Rightarrow> string"

definition colorAttributes :: "string list" where
  "colorAttributes = [''fill'', ''stroke'', ''stop-color'', ''flood-color'', ''lighting-color'']"

definition shapeTags :: "string list" where
  "shapeTags = [''path'', ''circle'', ''ellipse'', ''line'', ''polygon'', ''polyline'', ''rect'',
                ''text'', ''image'', ''use'']"

text \<open>
  Modelled from the spec: \<^verbatim>\<open>parseColors\<close> of \<^verbatim>\<open>@iconify/tools\<close> is missing from the sources.
  Section 4.4 of the spec describes it: the traversal applies the callback once to
  every value of a colour-bearing attribute, with the parsed colour or nothing when the
  value does not parse; an exception of the callback ends the traversal; a colour
  handed back leaves the attribute as it is written (or is printed, when it is another
  colour), a string replaces the value, and \<^verbatim>\<open>'remove'\<close> marks the owning shape. After
  the traversal the marked shapes are deleted with what they contain, and a document
  that this empties of visible geometry fails validation. The second component of
  \<open>parseAttribs\<close> is the mark. The spec says nothing about the default colour, which
  is ignored here.

  This is the traversal of the spec, not of the library: the snapshot of
  \<^verbatim>\<open>thumbs-down\<close> in \<^verbatim>\<open>test/index.test.ts\<close> keeps a path with \<^verbatim>\<open>fill="#fff"\<close> inside
  a \<^verbatim>\<open>clipPath\<close>, so the library leaves some colour values unvisited.
\<close>

fun parseAttribs ::
  "colorLib \<Rightarrow> (string \<Rightarrow> string \<Rightarrow> color option \<Rightarrow> string + callbackResult) \<Rightarrow>
   (string \<times> string) list \<Rightarrow> string + ((string \<times> string) list \<times> bool)" where
  "parseAttribs L cb [] = Inr ([], False)"
| "parseAttribs L cb ((attr, v) # rest) =
     (if attr \<notin> set colorAttributes then
        (case parseAttribs L cb rest of
           Inl e \<Rightarrow> Inl e
         | Inr (rest', marked) \<Rightarrow> Inr ((attr, v) # rest', marked))
      else
        (case cb attr v (stringToColor L v) of
           Inl e \<Rightarrow> Inl e
         | Inr r \<Rightarrow>
             (case parseAttribs L cb rest of
                Inl e \<Rightarrow> Inl e
              | Inr (rest', marked) \<Rightarrow>
                  (case r of
                     ResString s \<Rightarrow>
                       if s = ''remove'' then Inr ((attr, v) # rest', True)
                       else Inr ((attr, s) # rest', marked)
                   | ResColor c \<Rightarrow>
                       Inr ((attr, if stringToColor L v = Some c then v else colorToString L c) # rest',
                            marked)))))"

fun parseElement ::
  "colorLib \<Rightarrow> (string \<Rightarrow> string \<Rightarrow> color option \<Rightarrow> string + callbackResult) \<Rightarrow>
   element \<Rightarrow> string + element option"
  and parseChildren ::
  "colorLib \<Rightarrow> (string \<Rightarrow> string \<Rightarrow> color option \<Rightarrow> string + callbackResult) \<Rightarrow>
   element list \<Rightarrow> string + element list" where
  "parseElement L cb (Element t as cs) =
     (case parseAttribs L cb as of
        Inl e \<Rightarrow> Inl e
      | Inr (as', marked) \<Rightarrow>
          (case parseChildren L cb cs of
             Inl e \<Rightarrow> Inl e
           | Inr cs' \<Rightarrow> Inr (if marked then None else Some (Element t as' cs'))))"
| "parseChildren L cb [] = Inr []"
| "parseChildren L cb (c # cs) =
     (case parseElement L cb c of
        Inl e \<Rightarrow> Inl e
      | Inr r \<Rightarrow>
          (case parseChildren L cb cs of
             Inl e \<Rightarrow> Inl e
           | Inr cs' \<Rightarrow> Inr (case r of None \<Rightarrow> cs' | Some c' \<Rightarrow> c' # cs')))"

fun hasGeometry :: "element \<Rightarrow> bool"
  and anyGeometry :: "element list \<Rightarrow> bool" where
  "hasGeometry (Element t as cs) = (t \<in> set shapeTags \<or> anyGeometry cs)"
| "anyGeometry [] = False"
| "anyGeometry (c # cs) = (hasGeometry c \<or> anyGeometry cs)"

definition noGeometryMessage :: string where
  "noGeometryMessage = ''Invalid icon: no visible geometry''"

definition parseColorsSpec ::
  "colorLib \<Rightarrow> string \<Rightarrow> (string \<Rightarrow> string \<Rightarrow> color option \<Rightarrow> string + callbackResult) \<Rightarrow>
   element \<Rightarrow> string + element" where
  "parseColorsSpec L defaultColor cb svg =
     (case parseElement L cb svg of
        Inl e \<Rightarrow> Inl e
      | Inr None \<Rightarrow> Inl noGeometryMessage
      | Inr (Some svg') \<Rightarrow>
          if hasGeometry svg \<and> \<not> hasGeometry svg' then Inl noGeometryMessage else Inr svg')"

text \<open>All elements of a document, and what it means for one to carry a given paint.\<close>

fun elements :: "element \<Rightarrow> element list"
  and elementsOf :: "element list \<Rightarrow> element list" where
  "elements (Element t as cs) = Element t as cs # elementsOf cs"
| "elementsOf [] = []"
| "elementsOf (c # cs) = elements c @ elementsOf cs"

definition colorValues :: "element \<Rightarrow> (string \<times> string) list" where
  "colorValues el = filter (\<lambda>a. fst a \<in> set colorAttributes) (attribs el)"

definition paintedWith :: "colorLib \<Rightarrow> color option \<Rightarrow> element \<Rightarrow> bool" where
  "paintedWith L c el = list_ex (\<lambda>a. stringToColor L (snd a) = c) (colorValues el)"

subsection \<open>The colour-canonical form of a document\<close>

text \<open>
  What the colour rewriter computes when it runs with the callback of
  \<^verbatim>\<open>processIconSet\<close>, stated without the callback: a colour value that does not parse is
  invalid; a value that parses to pure black is replaced by \<^verbatim>\<open>currentColor\<close>; an element
  with a value that parses to pure white is deleted with its content.
\<close>

definition isInvalidAttr :: "colorLib \<Rightarrow> string \<times> string \<Rightarrow> bool" where
  "isInvalidAttr L a = (fst a \<in> set colorAttributes \<and> stringToColor L (snd a) = None)"

definition isWhiteAttr :: "colorLib \<Rightarrow> string \<times> string \<Rightarrow> bool" where
  "isWhiteAttr L a = (fst a \<in> set colorAttributes \<and> stringToColor L (snd a) = Some whiteColor)"

definition recolorAttr :: "colorLib \<Rightarrow> string \<times> string \<Rightarrow> string \<times> string" where
  "recolorAttr L a =
     (if fst a \<in> set colorAttributes \<and> stringToColor L (snd a) = Some blackColor
      then (fst a, ''currentColor'') else a)"

fun invalidColors :: "colorLib \<Rightarrow> element \<Rightarrow> (string \<times> string) list"
  and invalidColorsOf :: "colorLib \<Rightarrow> element list \<Rightarrow> (string \<times> string) list" where
  "invalidColors L (Element t as cs) = filter (isInvalidAttr L) as @ invalidColorsOf L cs"
| "invalidColorsOf L [] = []"
| "invalidColorsOf L (c # cs) = invalidColors L c @ invalidColorsOf L cs"

fun canonical :: "colorLib \<Rightarrow> element \<Rightarrow> element option"
  and canonicals :: "colorLib \<Rightarrow> element list \<Rightarrow> element list" where
  "canonical L (Element t as cs) =
     (if list_ex (isWhiteAttr L) as then None
      else Some (Element t (map (recolorAttr L) as) (canonicals L cs)))"
| "canonicals L [] = []"
| "canonicals L (c # cs) =
     (case canonical L c of None \<Rightarrow> canonicals L cs | Some c' \<Rightarrow> c' # canonicals L cs)"

section \<open>What \<^verbatim>\<open>processIconSet\<close> does to one entry\<close>

text \<open>
  The loop treats every entry on its own. An alias, or an icon for which no SVG instance
  can be obtained, is left untouched; an icon whose stages all succeed is written back;
  an icon for which a stage throws is rejected with the message of the exception.
  \<open>written\<close> is the icon set after the loop, \<open>rejected\<close> the names and messages
  collected for removal, \<open>processed\<close> the icon set after the removals. All icons of a
  set are rejected when every entry is.
\<close>

datatype 'b outcome = Untouched | Updated 'b | Rejected string

definition iconOutcome :: "('b, 'svg) tools \<Rightarrow> 'b item \<Rightarrow> 'b outcome" where
  "iconOutcome T it =
     (case it of
        Alias p \<Rightarrow> Untouched
      | Icon b \<Rightarrow>
          (case loadSVG T b of
             None \<Rightarrow> Untouched
           | Some svg \<Rightarrow>
               (case tryStages T svg of
                  Inr svg' \<Rightarrow> Updated (getBody T svg')
                | Inl message \<Rightarrow> Rejected message)))"

fun written :: "('b, 'svg) tools \<Rightarrow> (string \<times> 'b item) list \<Rightarrow> (string \<times> 'b item) list" where
  "written T [] = []"
| "written T ((name, it) # es) =
     (case iconOutcome T it of
        Updated b \<Rightarrow> (name, Icon b) # written T es
      | _ \<Rightarrow> (name, it) # written T es)"

fun rejected :: "('b, 'svg) tools \<Rightarrow> (string \<times> 'b item) list \<Rightarrow> (string \<times> string) list" where
  "rejected T [] = []"
| "rejected T ((name, it) # es) =
     (case iconOutcome T it of
        Rejected message \<Rightarrow> (name, message) # rejected T es
      | _ \<Rightarrow> rejected T es)"

fun processed :: "('b, 'svg) tools \<Rightarrow> (string \<times> 'b item) list \<Rightarrow> (string \<times> 'b item) list" where
  "processed T [] = []"
| "processed T ((name, it) # es) =
     (case iconOutcome T it of
        Untouched \<Rightarrow> (name, it) # processed T es
      | Updated b \<Rightarrow> (name, Icon b) # processed T es
      | Rejected message \<Rightarrow> processed T es)"

definition allRejected :: "('b, 'svg) tools \<Rightarrow> 'b iconSet \<Rightarrow> bool" where
  "allRejected T s =
     list_all (\<lambda>e. case iconOutcome T (snd e) of Rejected message \<Rightarrow> True | _ \<Rightarrow> False) (entries s)"

section \<open>Qualifying directories\<close>

text \<open>
  The directories of a tree that can be listed, each with its path and its entries, in
  the order of a depth-first walk. A directory qualifies when one of its own entries is
  a regular file whose name ends in \<^verbatim>\<open>.svg\<close>; the entries of its sub-directories do
  not count.
\<close>

fun allDirs :: "string list \<Rightarrow> fsnode \<Rightarrow> (string list \<times> (string \<times> fsnode) list) list"
  and allDirsOf :: "string list \<Rightarrow> (string \<times> fsnode) list \<Rightarrow> (string list \<times> (string \<times> fsnode) list) list"
  where
  "allDirs dir (Dir es) = (dir, es) # allDirsOf dir es"
| "allDirs dir (Unreadable e) = []"
| "allDirs dir File = []"
| "allDirs dir Special = []"
| "allDirsOf dir [] = []"
| "allDirsOf dir (e # es) = allDirs (dir @ [fst e]) (snd e) @ allDirsOf dir es"

definition qualifies :: "(string \<times> fsnode) list \<Rightarrow> bool" where
  "qualifies es = list_ex (\<lambda>e. snd e = File \<and> endsWith (fst e) ''.svg'') es"

definition svgDirs :: "string list \<Rightarrow> fsnode \<Rightarrow> string list list" where
  "svgDirs dir node = map fst (filter (\<lambda>p. qualifies (snd p)) (allDirs dir node))"

text \<open>A tree has an unreadable directory when one occurs anywhere in it.\<close>

fun unreadableIn :: "fsnode \<Rightarrow> bool"
  and unreadableAmong :: "(string \<times> fsnode) list \<Rightarrow> bool" where
  "unreadableIn (Unreadable e) = True"
| "unreadableIn (Dir es) = unreadableAmong es"
| "unreadableIn File = False"
| "unreadableIn Special = False"
| "unreadableAmong [] = False"
| "unreadableAmong (e # es) = (unreadableIn (snd e) \<or> unreadableAmong es)"

text \<open>The scan root can be walked: it is a directory and nothing below it is unreadable.\<close>

fun walkable :: "fsnode \<Rightarrow> bool" where
  "walkable (Dir es) = (\<not> unreadableAmong es)"
| "walkable _ = False"

text \<open>The key under which \<^verbatim>\<open>importSvgCollections\<close> files a directory.\<close>

definition keyOf :: "string option \<Rightarrow> string list \<Rightarrow> string list \<Rightarrow> string" where
  "keyOf prefixOpt source dir = collectionKey prefixOpt (pathPrefix source dir)"

section \<open>Example inputs\<close>

text \<open>
  A small colour library, a tool set around the colour rewriter above, and sample
  documents, icon sets and directory trees. The theorems below are evaluated on them.
\<close>

definition exampleLib :: colorLib where
  "exampleLib =
     \<lparr>stringToColor = map_of
        [(''black'', RGBColor 0 0 0 1), (''#000'', RGBColor 0 0 0 1),
         (''white'', RGBColor 255 255 255 1), (''#fff'', RGBColor 255 255 255 1),
         (''none'', NoColor), (''transparent'', TransparentColor),
         (''currentColor'', CurrentColor), (''#155EEF'', RGBColor 21 94 239 1)],
      colorToString = (\<lambda>c. case c of
         NoColor \<Rightarrow> ''none'' | TransparentColor \<Rightarrow> ''transparent''
       | CurrentColor \<Rightarrow> ''currentColor'' | _ \<Rightarrow> ''rgb()'')\<rparr>"

definition exampleTools ::
  "(string list \<Rightarrow> bool \<Rightarrow> string + element iconSet) \<Rightarrow> (element, element) tools" where
  "exampleTools loader =
     \<lparr>loadSVG = (\<lambda>b. if tag b = ''svg'' then Some b else None),
      getBody = (\<lambda>svg. svg),
      cleanupSVG = (\<lambda>svg. if hasGeometry svg then Inr svg else Inl ''Invalid icon: no geometry''),
      parseColors = parseColorsSpec exampleLib,
      runSVGO = Inr,
      deOptimisePaths = Inr,
      importDirectorySync = loader\<rparr>"

definition noLoader :: "string list \<Rightarrow> bool \<Rightarrow> string + element iconSet" where
  "noLoader dir includeSubDirs = Inl ''ENOENT: no such file or directory, scandir''"

definition tableLoader ::
  "(string list \<times> element iconSet) list \<Rightarrow> string list \<Rightarrow> bool \<Rightarrow> string + element iconSet" where
  "tableLoader table dir includeSubDirs =
     (case map_of table dir of
        Some s \<Rightarrow> Inr s
      | None \<Rightarrow> Inl ''ENOENT: no such file or directory, scandir'')"

definition singleSet :: "string \<Rightarrow> element \<Rightarrow> element iconSet" where
  "singleSet name doc = \<lparr>setPrefix = [], entries = [(name, Icon doc)], setLastModified = 0\<rparr>"

text \<open>Documents: a black stroke, an unparseable fill, a lone white shape, a mixed palette.\<close>

definition alertDoc :: element where
  "alertDoc = Element ''svg'' [(''viewBox'', ''0 0 16 16'')]
     [Element ''path'' [(''stroke'', ''black''), (''d'', ''M8 5.333V8'')] []]"

definition alertOut :: element where
  "alertOut = Element ''svg'' [(''viewBox'', ''0 0 16 16'')]
     [Element ''path'' [(''stroke'', ''currentColor''), (''d'', ''M8 5.333V8'')] []]"

definition brokenDoc :: element where
  "brokenDoc = Element ''svg'' [(''viewBox'', ''0 0 16 16'')]
     [Element ''path'' [(''fill'', ''bogus''), (''d'', ''M0 0h16'')] []]"

definition whiteDoc :: element where
  "whiteDoc = Element ''svg'' [(''viewBox'', ''0 0 16 16'')]
     [Element ''rect'' [(''width'', ''16''), (''fill'', ''#fff'')] []]"

definition mixedDoc :: element where
  "mixedDoc = Element ''svg'' [(''viewBox'', ''0 0 16 16'')]
     [Element ''rect'' [(''width'', ''16''), (''fill'', ''white'')] [],
      Element ''path'' [(''stroke'', ''#000''), (''fill'', ''none''), (''d'', ''M1 1'')] [],
      Element ''path'' [(''stroke'', ''#155EEF''), (''d'', ''M2 2'')] []]"

definition mixedOut :: element where
  "mixedOut = Element ''svg'' [(''viewBox'', ''0 0 16 16'')]
       [Element ''path'' [(''stroke'', ''currentColor''), (''fill'', ''none''), (''d'', ''M1 1'')] [],
        Element ''path'' [(''stroke'', ''#155EEF''), (''d'', ''M2 2'')] []]"

text \<open>Icon sets.\<close>

definition ghostSet :: "element iconSet" where
  "ghostSet = \<lparr>setPrefix = [], entries = [(''ghost'', Icon (Element ''g'' [] [])),
       (''alert'', Icon alertDoc)], setLastModified = 0\<rparr>"

definition lineSet :: "element iconSet" where
  "lineSet = \<lparr>setPrefix = [], entries = [(''alert'', Icon alertDoc), (''broken'', Icon brokenDoc),
       (''mixed'', Icon mixedDoc)], setLastModified = 0\<rparr>"

definition blankSet :: "element iconSet" where
  "blankSet = \<lparr>setPrefix = [], entries = [(''blank'', Icon whiteDoc), (''alert'', Icon alertDoc)],
       setLastModified = 0\<rparr>"

text \<open>
  Directory trees below the scan root \<^verbatim>\<open>icons\<close>, each with the loader that serves its
  directories.
\<close>

definition rejectTree :: fsnode where
  "rejectTree = Dir [(''a'', Dir [(''broken.svg'', File)])]"

definition rejectLoader :: "string list \<Rightarrow> bool \<Rightarrow> string + element iconSet" where
  "rejectLoader = tableLoader [([''icons'', ''a''], singleSet ''broken'' brokenDoc),
     ([''icons''], singleSet ''broken'' brokenDoc)]"

definition nestTree :: fsnode where
  "nestTree = Dir [(''a'', Dir [(''x.svg'', File), (''b'', Dir [(''y.svg'', File)])]),
                   (''c'', Dir [(''readme.md'', File)])]"

definition nestLoader :: "string list \<Rightarrow> bool \<Rightarrow> string + element iconSet" where
  "nestLoader = tableLoader [([''icons'', ''a''], singleSet ''x'' alertDoc),
     ([''icons'', ''a'', ''b''], singleSet ''y'' mixedDoc)]"

definition lockedTree :: fsnode where
  "lockedTree = Dir [(''locked'', Unreadable ''EACCES: permission denied, scandir''),
                     (''open'', Dir [(''x.svg'', File)])]"

definition openLoader :: "string list \<Rightarrow> bool \<Rightarrow> string + element iconSet" where
  "openLoader = tableLoader [([''icons'', ''open''], singleSet ''x'' alertDoc)]"

definition clashTree :: fsnode where
  "clashTree = Dir [(''a'', Dir [(''b'', Dir [(''y.svg'', File)])]),
                    (''a-b'', Dir [(''z.svg'', File)])]"

definition clashLoader :: "string list \<Rightarrow> bool \<Rightarrow> string + element iconSet" where
  "clashLoader = tableLoader [([''icons'', ''a'', ''b''], singleSet ''y'' alertDoc),
     ([''icons'', ''a-b''], singleSet ''z'' mixedDoc)]"

text \<open>
  A second colour stage, as the snapshot of \<^verbatim>\<open>thumbs-down\<close> in \<^verbatim>\<open>test/index.test.ts\<close> shows
  the library's to be: the traversal above, except that what stands inside a
  \<^verbatim>\<open>clipPath\<close> or \<^verbatim>\<open>mask\<close> is left as it is, and that the document is returned whatever
  the deletions have left of it. A marked root loses its content.
\<close>

definition maskTags :: "string list" where
  "maskTags = [''clipPath'', ''mask'']"

fun visitElement ::
  "colorLib \<Rightarrow> (string \<Rightarrow> string \<Rightarrow> color option \<Rightarrow> string + callbackResult) \<Rightarrow>
   element \<Rightarrow> string + element option"
  and visitChildren ::
  "colorLib \<Rightarrow> (string \<Rightarrow> string \<Rightarrow> color option \<Rightarrow> string + callbackResult) \<Rightarrow>
   element list \<Rightarrow> string + element list" where
  "visitElement L cb (Element t as cs) =
     (if t \<in> set maskTags then Inr (Some (Element t as cs))
      else
        (case parseAttribs L cb as of
           Inl e \<Rightarrow> Inl e
         | Inr (as', marked) \<Rightarrow>
             (case visitChildren L cb cs of
                Inl e \<Rightarrow> Inl e
              | Inr cs' \<Rightarrow> Inr (if marked then None else Some (Element t as' cs')))))"
| "visitChildren L cb [] = Inr []"
| "visitChildren L cb (c # cs) =
     (case visitElement L cb c of
        Inl e \<Rightarrow> Inl e
      | Inr r \<Rightarrow>
          (case visitChildren L cb cs of
             Inl e \<Rightarrow> Inl e
           | Inr cs' \<Rightarrow> Inr (case r of None \<Rightarrow> cs' | Some c' \<Rightarrow> c' # cs')))"

definition snapshotColors ::
  "colorLib \<Rightarrow> string \<Rightarrow> (string \<Rightarrow> string \<Rightarrow> color option \<Rightarrow> string + callbackResult) \<Rightarrow>
   element \<Rightarrow> string + element" where
  "snapshotColors L defaultColor cb svg =
     (case visitElement L cb svg of
        Inl e \<Rightarrow> Inl e
      | Inr None \<Rightarrow> Inr (Element (tag svg) (attribs svg) [])
      | Inr (Some svg') \<Rightarrow> Inr svg')"

definition snapshotTools :: "(element, element) tools" where
  "snapshotTools = (exampleTools noLoader)\<lparr>parseColors := snapshotColors exampleLib\<rparr>"

definition thumbsDoc :: element where
  "thumbsDoc = Element ''svg'' [(''viewBox'', ''0 0 16 16'')]
     [Element ''g'' [(''clip-path'', ''url(#a)'')]
        [Element ''path'' [(''stroke'', ''#155EEF''), (''d'', ''M11.333 1.334v7.333'')] []],
      Element ''rect'' [(''width'', ''16''), (''fill'', ''white'')] [],
      Element ''defs'' []
        [Element ''clipPath'' [(''id'', ''a'')]
           [Element ''path'' [(''fill'', ''#fff''), (''d'', ''M0 0h16v16H0z'')] []]]]"

definition thumbsOut :: element where
  "thumbsOut = Element ''svg'' [(''viewBox'', ''0 0 16 16'')]
     [Element ''g'' [(''clip-path'', ''url(#a)'')]
        [Element ''path'' [(''stroke'', ''#155EEF''), (''d'', ''M11.333 1.334v7.333'')] []],
      Element ''defs'' []
        [Element ''clipPath'' [(''id'', ''a'')]
           [Element ''path'' [(''fill'', ''#fff''), (''d'', ''M0 0h16v16H0z'')] []]]]"

definition blankOut :: element where
  "blankOut = Element ''svg'' [(''viewBox'', ''0 0 16 16'')] []"

definition protoTree :: fsnode where
  "protoTree = Dir [(''__proto__'', Dir [(''x.svg'', File)])]"

definition protoLoader :: "string list \<Rightarrow> bool \<Rightarrow> string + element iconSet" where
  "protoLoader = tableLoader [([''icons'', ''__proto__''], singleSet ''x'' alertDoc)]"

section \<open>Properties of \<^verbatim>\<open>processIconSet\<close>\<close>

text \<open>
  For an icon set with distinct names the loop and the removals amount to \<open>processed\<close>,
  and the console output lists the rejected entries in order.
\<close>

lemma update_at_first:
  "name \<notin> fst ` set pre \<Longrightarrow> AList.update name v (pre @ (name, it) # rest) = pre @ (name, v) # rest"
  by (induction pre) auto

lemma map_of_at_first:
  "name \<notin> fst ` set pre \<Longrightarrow> map_of (pre @ (name, it) # rest) name = Some it"
  by (induction pre) auto

lemma written_names: "map fst (written T es) = map fst es"
  by (induction T es rule: written.induct) (auto split: outcome.splits)

lemma toSVG_at_first:
  assumes "name \<notin> fst ` set pre" and "entries s = pre @ (name, it) # rest"
  shows "toSVG T s name = (case it of Icon b \<Rightarrow> loadSVG T b | Alias p \<Rightarrow> None)"
proof -
  have "map_of (entries s) name = Some it"
    using assms map_of_at_first [of name pre it rest] by simp
  then show ?thesis by (simp add: toSVG_def split: item.splits)
qed

lemma forEachCallback_step:
  assumes "name \<notin> fst ` set pre" and "entries (iconSet st) = pre @ (name, it) # rest"
  shows "forEachCallback T (name, it) st =
         st\<lparr>iconSet := (iconSet st)\<lparr>entries := pre @ written T [(name, it)] @ rest\<rparr>,
            iconsToRemove := iconsToRemove st @ map fst (rejected T [(name, it)]),
            warnings := warnings st @ map (\<lambda>(n, m). skipWarning n m) (rejected T [(name, it)])\<rparr>"
proof (cases "iconOutcome T it")
  case Untouched
  then have "forEachCallback T (name, it) st = st"
    using toSVG_at_first [OF assms, of T]
    by (auto simp: forEachCallback_def iconOutcome_def split: item.splits option.splits sum.splits)
  then show ?thesis using Untouched assms(2) by simp
next
  case (Updated b)
  then obtain b0 svg svg' where "it = Icon b0" "loadSVG T b0 = Some svg"
    "tryStages T svg = Inr svg'" "b = getBody T svg'"
    by (auto simp: iconOutcome_def split: item.splits option.splits sum.splits)
  then have "forEachCallback T (name, it) st = st\<lparr>iconSet := fromSVG T name svg' (iconSet st)\<rparr>"
    using toSVG_at_first [OF assms, of T] by (simp add: forEachCallback_def)
  then show ?thesis
    using Updated assms \<open>b = getBody T svg'\<close> by (simp add: fromSVG_def update_at_first)
next
  case (Rejected m)
  then obtain b0 svg where "it = Icon b0" "loadSVG T b0 = Some svg" "tryStages T svg = Inl m"
    by (auto simp: iconOutcome_def split: item.splits option.splits sum.splits)
  then have "forEachCallback T (name, it) st =
      st\<lparr>warnings := warnings st @ [skipWarning name m], iconsToRemove := iconsToRemove st @ [name]\<rparr>"
    using toSVG_at_first [OF assms, of T] by (simp add: forEachCallback_def)
  then show ?thesis using Rejected assms(2) by simp
qed

lemma fold_forEachCallback:
  "distinct (map fst ys) \<Longrightarrow> fst ` set pre \<inter> fst ` set ys = {} \<Longrightarrow>
   entries (iconSet st) = pre @ ys \<Longrightarrow>
   fold (forEachCallback T) ys st =
     st\<lparr>iconSet := (iconSet st)\<lparr>entries := pre @ written T ys\<rparr>,
        iconsToRemove := iconsToRemove st @ map fst (rejected T ys),
        warnings := warnings st @ map (\<lambda>(n, m). skipWarning n m) (rejected T ys)\<rparr>"
proof (induction ys arbitrary: st pre)
  case Nil
  then show ?case by simp
next
  case (Cons e ys)
  obtain name it where e: "e = (name, it)" by (cases e)
  have fresh: "name \<notin> fst ` set pre" using Cons.prems(2) e by auto
  let ?st = "forEachCallback T (name, it) st"
  have step: "?st =
         st\<lparr>iconSet := (iconSet st)\<lparr>entries := pre @ written T [(name, it)] @ ys\<rparr>,
            iconsToRemove := iconsToRemove st @ map fst (rejected T [(name, it)]),
            warnings := warnings st @ map (\<lambda>(n, m). skipWarning n m) (rejected T [(name, it)])\<rparr>"
    using forEachCallback_step [OF fresh, of st it ys T] Cons.prems(3) e by simp
  define it' where "it' = (case iconOutcome T it of Updated b \<Rightarrow> Icon b | _ \<Rightarrow> it)"
  have w1: "written T [(name, it)] = [(name, it')]"
    unfolding it'_def by (cases "iconOutcome T it") simp_all
  note step' = step [unfolded w1]
  have ent: "entries (iconSet ?st) = (pre @ [(name, it')]) @ ys"
    by (simp add: step')
  have d: "distinct (map fst ys)" using Cons.prems(1) by simp
  have disj: "fst ` set (pre @ [(name, it')]) \<inter> fst ` set ys = {}"
    using Cons.prems(1,2) e by auto
  have "fold (forEachCallback T) ys ?st =
     ?st\<lparr>iconSet := (iconSet ?st)\<lparr>entries := (pre @ [(name, it')]) @ written T ys\<rparr>,
        iconsToRemove := iconsToRemove ?st @ map fst (rejected T ys),
        warnings := warnings ?st @ map (\<lambda>(n, m). skipWarning n m) (rejected T ys)\<rparr>"
    by (rule Cons.IH [OF d disj ent])
  moreover have "written T ((name, it) # ys) = (name, it') # written T ys"
    using w1 by (auto split: outcome.splits)
  moreover have "rejected T ((name, it) # ys) = rejected T [(name, it)] @ rejected T ys"
    by (auto split: outcome.splits)
  ultimately show ?case
    by (simp add: e step)
qed

lemma delete_filter: "AList.delete n es = filter (\<lambda>e. fst e \<noteq> n) es"
  by (induction es) auto

lemma remove_entries_update:
  "remove n (s\<lparr>entries := es\<rparr>) = s\<lparr>entries := filter (\<lambda>e. fst e \<noteq> n) es\<rparr>"
  by (simp add: remove_def delete_filter)

lemma fold_remove:
  "fold remove names (s\<lparr>entries := es\<rparr>) = s\<lparr>entries := filter (\<lambda>e. fst e \<notin> set names) es\<rparr>"
proof (induction names arbitrary: es)
  case Nil
  then show ?case by simp
next
  case (Cons n names)
  have "filter (\<lambda>e. fst e \<notin> set names) (filter (\<lambda>e. fst e \<noteq> n) es)
        = filter (\<lambda>e. fst e \<notin> set (n # names)) es"
    by (auto intro: filter_cong)
  then show ?case
    by (simp only: fold_Cons comp_apply remove_entries_update Cons.IH)
qed

lemma rejected_names_subset: "fst ` set (rejected T es) \<subseteq> fst ` set es"
  by (induction T es rule: rejected.induct) (auto split: outcome.splits)

lemma filter_written:
  "distinct (map fst es) \<Longrightarrow>
   filter (\<lambda>e. fst e \<notin> fst ` set (rejected T es)) (written T es) = processed T es"
proof (induction T es rule: processed.induct)
  case (1 T)
  then show ?case by simp
next
  case (2 T name it es)
  have fresh: "name \<notin> fst ` set (written T es)"
    using 2 written_names [of T es] by (metis distinct.simps(2) list.simps(9) fst_conv set_map)
  have nr: "name \<notin> fst ` set (rejected T es)"
    using 2 rejected_names_subset [of T es] by auto
  have keep: "filter (\<lambda>e. fst e \<noteq> name \<and> fst e \<notin> fst ` set (rejected T es)) (written T es)
     = filter (\<lambda>e. fst e \<notin> fst ` set (rejected T es)) (written T es)"
    using fresh by (intro filter_cong) auto
  show ?case
  proof (cases "iconOutcome T it")
    case Untouched
    then show ?thesis using 2 nr by simp
  next
    case (Updated b)
    then show ?thesis using 2 nr by simp
  next
    case (Rejected m)
    then show ?thesis using 2 keep by simp
  qed
qed

lemma processIconSet_eq:
  assumes "distinct (map fst (entries s))"
  shows "processIconSet T s =
         (s\<lparr>entries := processed T (entries s)\<rparr>,
          map (\<lambda>(n, m). skipWarning n m) (rejected T (entries s)))"
proof -
  let ?st0 = "\<lparr>iconSet = s, iconsToRemove = [], warnings = []\<rparr>"
  have "fold (forEachCallback T) (entries s) ?st0 =
     ?st0\<lparr>iconSet := (iconSet ?st0)\<lparr>entries := [] @ written T (entries s)\<rparr>,
        iconsToRemove := iconsToRemove ?st0 @ map fst (rejected T (entries s)),
        warnings := warnings ?st0 @ map (\<lambda>(n, m). skipWarning n m) (rejected T (entries s))\<rparr>"
    by (rule fold_forEachCallback) (use assms in auto)
  then show ?thesis
    using filter_written [OF assms, of T]
    by (simp add: processIconSet_def fold_remove)
qed

text \<open>Consequences for single entries.\<close>

lemma processed_names: "fst ` set (processed T es) \<subseteq> fst ` set es"
  by (induction T es rule: processed.induct) (auto split: outcome.splits)

lemma processed_distinct: "distinct (map fst es) \<Longrightarrow> distinct (map fst (processed T es))"
proof (induction T es rule: processed.induct)
  case (1 T)
  then show ?case by simp
next
  case (2 T name it es)
  then show ?case using processed_names [of T es] by (cases "iconOutcome T it") auto
qed

lemma processed_untouched:
  "(name, it) \<in> set es \<Longrightarrow> iconOutcome T it = Untouched \<Longrightarrow> (name, it) \<in> set (processed T es)"
  by (induction T es rule: processed.induct) (auto split: outcome.splits)

lemma processed_lookup:
  "distinct (map fst es) \<Longrightarrow>
   map_of (processed T es) n =
     (case map_of es n of
        None \<Rightarrow> None
      | Some it \<Rightarrow>
          (case iconOutcome T it of
             Untouched \<Rightarrow> Some it
           | Updated b \<Rightarrow> Some (Icon b)
           | Rejected m \<Rightarrow> None))"
proof (induction T es rule: processed.induct)
  case (1 T)
  then show ?case by simp
next
  case (2 T name it es)
  have absent: "map_of (processed T es) name = None"
    using 2(4) processed_names [of T es] by (auto simp: map_of_eq_None_iff)
  show ?case
  proof (cases "n = name")
    case True
    then show ?thesis using absent by (cases "iconOutcome T it") simp_all
  next
    case False
    then show ?thesis using 2 by (cases "iconOutcome T it") simp_all
  qed
qed

lemma rejected_mem:
  "(n, it) \<in> set es \<Longrightarrow> iconOutcome T it = Rejected m \<Longrightarrow> (n, m) \<in> set (rejected T es)"
  by (induction T es rule: rejected.induct) (auto split: outcome.splits)

lemma rejected_filter_untouched:
  "(\<And>it. (name, it) \<in> set es \<Longrightarrow> \<forall>m. iconOutcome T it \<noteq> Rejected m) \<Longrightarrow>
   rejected T (filter (\<lambda>e. fst e \<noteq> name) es) = rejected T es"
proof (induction T es rule: rejected.induct)
  case (1 T)
  then show ?case by simp
next
  case (2 T n it es)
  then show ?case by (cases "iconOutcome T it") auto
qed

lemma exportIcons_mem: "(name, b) \<in> set (exportIcons es) \<longleftrightarrow> (name, Icon b) \<in> set es"
  by (induction es rule: exportIcons.induct) auto

lemma exportIcons_names: "fst ` set (exportIcons es) \<subseteq> fst ` set es"
  by (induction es rule: exportIcons.induct) auto

lemma rejected_absent:
  assumes "distinct (map fst (entries s))" and "map_of (entries s) name = Some it"
    and "iconOutcome T it = Rejected m"
  shows "map_of (entries (fst (processIconSet T s))) name = None"
    and "name \<notin> fst ` set (icons (export (fst (processIconSet T s))))"
    and "skipWarning name m \<in> set (snd (processIconSet T s))"
proof -
  show none: "map_of (entries (fst (processIconSet T s))) name = None"
    using assms by (simp add: processIconSet_eq processed_lookup)
  then have "name \<notin> fst ` set (entries (fst (processIconSet T s)))"
    by (simp add: map_of_eq_None_iff)
  then show "name \<notin> fst ` set (icons (export (fst (processIconSet T s))))"
    using exportIcons_names [of "entries (fst (processIconSet T s))"]
    by (auto simp: export_def)
  have "(name, m) \<in> set (rejected T (entries s))"
    using assms(2,3) by (auto intro: rejected_mem dest: map_of_SomeD)
  then show "skipWarning name m \<in> set (snd (processIconSet T s))"
    using assms(1) by (force simp: processIconSet_eq)
qed

lemma accepted_present:
  assumes "distinct (map fst (entries s))" and "map_of (entries s) name = Some it"
    and "iconOutcome T it = Updated b'"
  shows "map_of (entries (fst (processIconSet T s))) name = Some (Icon b')"
    and "(name, b') \<in> set (icons (export (fst (processIconSet T s))))"
proof -
  show look: "map_of (entries (fst (processIconSet T s))) name = Some (Icon b')"
    using assms by (simp add: processIconSet_eq processed_lookup)
  then have "(name, Icon b') \<in> set (entries (fst (processIconSet T s)))"
    by (rule map_of_SomeD)
  then show "(name, b') \<in> set (icons (export (fst (processIconSet T s))))"
    by (simp add: export_def exportIcons_mem)
qed

lemma allRejected_processed:
  "list_all (\<lambda>e. case iconOutcome T (snd e) of Rejected message \<Rightarrow> True | _ \<Rightarrow> False) es \<Longrightarrow>
   processed T es = []"
  by (induction T es rule: processed.induct) (auto split: outcome.splits)

lemma allRejected_export:
  assumes "distinct (map fst (entries s))" and "allRejected T s"
  shows "fst (processIconSet T s) = s\<lparr>entries := []\<rparr>"
    and "icons (export (fst (processIconSet T s))) = []"
  using assms allRejected_processed [of T "entries s"]
  by (simp_all add: processIconSet_eq allRejected_def export_def)

text \<open>Processing never adds a name, whether or not the names are distinct.\<close>

lemma update_present_names:
  "name \<in> fst ` set al \<Longrightarrow> fst ` set (AList.update name v al) = fst ` set al"
  by (induction al) auto

lemma forEachCallback_names:
  assumes "fst e \<in> fst ` set (entries (iconSet st))"
  shows "fst ` set (entries (iconSet (forEachCallback T e st))) = fst ` set (entries (iconSet st))"
  using assms
  by (auto simp: forEachCallback_def fromSVG_def update_present_names
      split: item.splits option.splits sum.splits)

lemma fold_forEachCallback_names:
  "fst ` set es \<subseteq> fst ` set (entries (iconSet st)) \<Longrightarrow>
   fst ` set (entries (iconSet (fold (forEachCallback T) es st))) = fst ` set (entries (iconSet st))"
proof (induction es arbitrary: st)
  case Nil
  then show ?case by simp
next
  case (Cons e es)
  have e: "fst e \<in> fst ` set (entries (iconSet st))"
    using Cons.prems by auto
  have "fst ` set es \<subseteq> fst ` set (entries (iconSet (forEachCallback T e st)))"
    using Cons.prems forEachCallback_names [OF e, of T] by auto
  from Cons.IH [OF this] show ?case
    using forEachCallback_names [OF e, of T] by simp
qed

lemma fold_remove_names: "fst ` set (entries (fold remove names s)) \<subseteq> fst ` set (entries s)"
proof (induction names arbitrary: s)
  case Nil
  then show ?case by simp
next
  case (Cons n names)
  have "fst ` set (entries (remove n s)) \<subseteq> fst ` set (entries s)"
    by (auto simp: remove_def delete_filter)
  then show ?case
    using Cons.IH [of "remove n s"] by auto
qed

lemma processIconSet_names:
  "fst ` set (entries (fst (processIconSet T s))) \<subseteq> fst ` set (entries s)"
proof -
  let ?st = "fold (forEachCallback T) (entries s) \<lparr>iconSet = s, iconsToRemove = [], warnings = []\<rparr>"
  have "fst ` set (entries (iconSet ?st)) = fst ` set (entries s)"
    using fold_forEachCallback_names [of "entries s" "\<lparr>iconSet = s, iconsToRemove = [], warnings = []\<rparr>" T]
    by simp
  then show ?thesis
    using fold_remove_names [of "iconsToRemove ?st" "iconSet ?st"]
    by (simp add: processIconSet_def Let_def)
qed

lemma export_icon_names:
  "fst ` set (icons (export (fst (processIconSet T s)))) \<subseteq> fst ` set (entries s)"
  using exportIcons_names [of "entries (fst (processIconSet T s))"] processIconSet_names [of T s]
  by (auto simp: export_def)

section \<open>Properties of the colour rewriter\<close>

text \<open>
  With the callback of \<^verbatim>\<open>processIconSet\<close> the rewriter fails with the message for the
  first invalid colour value, and otherwise returns the canonical form.
\<close>

lemma parseAttribs_callback:
  "parseAttribs L callback as =
     (case filter (isInvalidAttr L) as of
        [] \<Rightarrow> Inr (map (recolorAttr L) as, list_ex (isWhiteAttr L) as)
      | a # rest \<Rightarrow> Inl (invalidColorMessage (snd a) (fst a)))"
proof (induction as)
  case Nil
  then show ?case by simp
next
  case (Cons a as)
  obtain attr v where a: "a = (attr, v)" by (cases a)
  show ?case
  proof (cases "attr \<in> set colorAttributes")
    case False
    have inv: "\<not> isInvalidAttr L (attr, v)" and wh: "\<not> isWhiteAttr L (attr, v)"
      and rc: "recolorAttr L (attr, v) = (attr, v)"
      using False by (simp_all add: isInvalidAttr_def isWhiteAttr_def recolorAttr_def)
    show ?thesis
      using False by (simp add: a inv wh rc Cons.IH split: list.splits)
  next
    case True
    show ?thesis
    proof (cases "stringToColor L v")
      case None
      have inv: "isInvalidAttr L (attr, v)"
        using True None by (simp add: isInvalidAttr_def)
      show ?thesis
        using True None by (simp add: a inv callback_def)
    next
      case (Some c)
      have inv: "\<not> isInvalidAttr L (attr, v)"
        using Some by (simp add: isInvalidAttr_def)
      have wh: "isWhiteAttr L (attr, v) = (c = whiteColor)"
        using True Some by (simp add: isWhiteAttr_def)
      have rc: "recolorAttr L (attr, v) = (if c = blackColor then (attr, ''currentColor'') else (attr, v))"
        using True Some by (simp add: recolorAttr_def)
      have cb: "callback attr v (Some c) =
          (if c = blackColor then Inr (ResString ''currentColor'')
           else if c = whiteColor then Inr (ResString ''remove'') else Inr (ResColor c))"
        by (auto simp: callback_def compareColors_def blackColor_def whiteColor_def)
      have bw: "blackColor \<noteq> whiteColor"
        by (simp add: blackColor_def whiteColor_def)
      show ?thesis
        using True bw by (simp add: a Some inv wh rc cb Cons.IH split: list.splits)
    qed
  qed
qed

lemma parse_callback:
  "parseElement L callback d =
     (case invalidColors L d of
        [] \<Rightarrow> Inr (canonical L d)
      | a # rest \<Rightarrow> Inl (invalidColorMessage (snd a) (fst a)))"
  "parseChildren L callback cs =
     (case invalidColorsOf L cs of
        [] \<Rightarrow> Inr (canonicals L cs)
      | a # rest \<Rightarrow> Inl (invalidColorMessage (snd a) (fst a)))"
proof (induction L d and L cs rule: invalidColors_invalidColorsOf.induct)
  case (1 L t as cs)
  then show ?case
    by (simp add: parseAttribs_callback split: list.splits)
next
  case (2 L)
  then show ?case by simp
next
  case (3 L c cs)
  then show ?case
    by (simp split: list.splits option.splits)
qed

lemma parseColorsSpec_invalid:
  "invalidColors L d = a # rest \<Longrightarrow>
   parseColorsSpec L dc callback d = Inl (invalidColorMessage (snd a) (fst a))"
  by (simp add: parseColorsSpec_def parse_callback)

lemma invalidColors_invalid:
  "invalidColors L d = a # rest \<Longrightarrow> isInvalidAttr L a"
  "invalidColorsOf L cs = a # rest \<Longrightarrow> isInvalidAttr L a"
proof -
  have "\<forall>x \<in> set (invalidColors L d). isInvalidAttr L x"
    and "\<forall>x \<in> set (invalidColorsOf L cs). isInvalidAttr L x"
    by (induction L d and L cs rule: invalidColors_invalidColorsOf.induct) auto
  then show "invalidColors L d = a # rest \<Longrightarrow> isInvalidAttr L a"
    and "invalidColorsOf L cs = a # rest \<Longrightarrow> isInvalidAttr L a"
    by auto
qed

lemma parseColorsSpec_canonical:
  "parseColorsSpec L dc callback d = Inr d' \<Longrightarrow> canonical L d = Some d'"
  by (cases "invalidColors L d"; cases "canonical L d")
     (auto simp: parseColorsSpec_def parse_callback split: if_splits)

text \<open>The canonical form carries no white paint, and is its own canonical form.\<close>

lemma paintedWith_white:
  "paintedWith L (Some whiteColor) (Element t as cs) = list_ex (isWhiteAttr L) as"
  by (induction as) (auto simp: paintedWith_def colorValues_def isWhiteAttr_def)

lemma isWhiteAttr_recolor:
  assumes "stringToColor L ''currentColor'' \<noteq> Some whiteColor"
  shows "isWhiteAttr L (recolorAttr L a) = isWhiteAttr L a"
proof -
  have "blackColor \<noteq> whiteColor" by (simp add: blackColor_def whiteColor_def)
  then show ?thesis
    using assms by (auto simp: isWhiteAttr_def recolorAttr_def)
qed

lemma white_recolor_list:
  assumes "stringToColor L ''currentColor'' \<noteq> Some whiteColor"
  shows "list_ex (isWhiteAttr L) (map (recolorAttr L) as) = list_ex (isWhiteAttr L) as"
  by (induction as) (simp_all add: isWhiteAttr_recolor [OF assms])

lemma canonical_no_white:
  "stringToColor L ''currentColor'' \<noteq> Some whiteColor \<Longrightarrow> canonical L d = Some d' \<Longrightarrow>
     \<forall>e \<in> set (elements d'). \<not> paintedWith L (Some whiteColor) e"
  "stringToColor L ''currentColor'' \<noteq> Some whiteColor \<Longrightarrow>
     \<forall>e \<in> set (elementsOf (canonicals L cs)). \<not> paintedWith L (Some whiteColor) e"
proof (induction L d and L cs arbitrary: d' rule: canonical_canonicals.induct)
  case (1 L t as cs)
  then show ?case
    by (auto simp: paintedWith_white white_recolor_list split: if_splits)
next
  case (2 L)
  then show ?case by simp
next
  case (3 L c cs)
  then show ?case
    by (cases "canonical L c") auto
qed

lemma recolorAttr_again:
  assumes "stringToColor L ''currentColor'' = Some CurrentColor"
  shows "recolorAttr L (recolorAttr L a) = recolorAttr L a"
    and "isInvalidAttr L (recolorAttr L a) = isInvalidAttr L a"
    and "isWhiteAttr L (recolorAttr L a) = isWhiteAttr L a"
  using assms
  by (auto simp: recolorAttr_def isInvalidAttr_def isWhiteAttr_def blackColor_def whiteColor_def)

lemma recolor_list_again:
  assumes "stringToColor L ''currentColor'' = Some CurrentColor"
  shows "map (recolorAttr L) (map (recolorAttr L) as) = map (recolorAttr L) as"
    and "filter (isInvalidAttr L) (map (recolorAttr L) as) = [] \<longleftrightarrow> filter (isInvalidAttr L) as = []"
    and "list_ex (isWhiteAttr L) (map (recolorAttr L) as) = list_ex (isWhiteAttr L) as"
  by (induction as) (simp_all add: recolorAttr_again [OF assms])

lemma canonical_again:
  "stringToColor L ''currentColor'' = Some CurrentColor \<Longrightarrow> canonical L d = Some d' \<Longrightarrow>
     canonical L d' = Some d' \<and> (invalidColors L d = [] \<longrightarrow> invalidColors L d' = [])"
  "stringToColor L ''currentColor'' = Some CurrentColor \<Longrightarrow>
     canonicals L (canonicals L cs) = canonicals L cs
     \<and> (invalidColorsOf L cs = [] \<longrightarrow> invalidColorsOf L (canonicals L cs) = [])"
proof (induction L d and L cs arbitrary: d' rule: canonical_canonicals.induct)
  case (1 L t as cs)
  then show ?case
    by (auto simp: recolor_list_again recolorAttr_again split: if_splits)
next
  case (2 L)
  then show ?case by simp
next
  case (3 L c cs)
  then show ?case
    by (cases "canonical L c") auto
qed

lemma parseColorsSpec_again:
  assumes "stringToColor L ''currentColor'' = Some CurrentColor"
    and "parseColorsSpec L dc callback d = Inr d'"
  shows "parseColorsSpec L dc' callback d' = Inr d'"
proof -
  have inv: "invalidColors L d = []"
    using assms(2) by (cases "invalidColors L d") (auto simp: parseColorsSpec_def parse_callback)
  have can: "canonical L d = Some d'"
    using assms(2) by (rule parseColorsSpec_canonical)
  from canonical_again(1) [OF assms(1) can] inv
  have "canonical L d' = Some d'" and "invalidColors L d' = []" by auto
  then show ?thesis
    by (simp add: parseColorsSpec_def parse_callback)
qed

text \<open>
  Every element of the canonical form is an element of the document with its black
  paints replaced, and without white paint no element is lost.
\<close>

lemma canonical_elements:
  "canonical L d = Some d' \<Longrightarrow>
     \<forall>e2 \<in> set (elements d'). \<exists>e1 \<in> set (elements d).
        tag e2 = tag e1 \<and> attribs e2 = map (recolorAttr L) (attribs e1)"
  "\<forall>e2 \<in> set (elementsOf (canonicals L cs)). \<exists>e1 \<in> set (elementsOf cs).
        tag e2 = tag e1 \<and> attribs e2 = map (recolorAttr L) (attribs e1)"
proof (induction L d and L cs arbitrary: d' rule: canonical_canonicals.induct)
  case (1 L t as cs)
  then show ?case
    by (auto split: if_splits)
next
  case (2 L)
  then show ?case by simp
next
  case (3 L c cs)
  then show ?case
    by (cases "canonical L c") auto
qed

lemma canonical_None_white:
  "canonical L d = None \<Longrightarrow> list_ex (paintedWith L (Some whiteColor)) (elements d)"
  by (cases d) (auto simp: paintedWith_white split: if_splits)

lemma canonical_keeps_all:
  "\<not> list_ex (paintedWith L (Some whiteColor)) (elements d) \<Longrightarrow> canonical L d = Some d' \<Longrightarrow>
     map (\<lambda>e. (tag e, attribs e)) (elements d')
       = map (\<lambda>e. (tag e, map (recolorAttr L) (attribs e))) (elements d)"
  "\<not> list_ex (paintedWith L (Some whiteColor)) (elementsOf cs) \<Longrightarrow>
     map (\<lambda>e. (tag e, attribs e)) (elementsOf (canonicals L cs))
       = map (\<lambda>e. (tag e, map (recolorAttr L) (attribs e))) (elementsOf cs)"
proof (induction L d and L cs arbitrary: d' rule: canonical_canonicals.induct)
  case (1 L t as cs)
  then show ?case
    by (auto simp: paintedWith_white split: if_splits)
next
  case (2 L)
  then show ?case by simp
next
  case (3 L c cs)
  have nc: "\<not> list_ex (paintedWith L (Some whiteColor)) (elements c)"
    and ncs: "\<not> list_ex (paintedWith L (Some whiteColor)) (elementsOf cs)"
    using 3(4) by (auto simp: list_ex_iff)
  obtain c' where c': "canonical L c = Some c'"
    using canonical_None_white [of L c] nc by (cases "canonical L c") auto
  show ?case
    using 3(1) [OF nc c'] 3(3) [OF c' ncs] c' by simp
qed

lemma recolorAttr_cases:
  "attr \<in> set colorAttributes \<and> stringToColor L v = Some c \<and> compareColors c blackColor \<longrightarrow>
     recolorAttr L (attr, v) = (attr, ''currentColor'')"
  "stringToColor L v = Some c \<and> \<not> compareColors c blackColor \<longrightarrow> recolorAttr L (attr, v) = (attr, v)"
  by (simp_all add: recolorAttr_def compareColors_def)

section \<open>Properties of the directory walk and of the import loop\<close>

text \<open>
  On a tree that can be walked \<^verbatim>\<open>traverse\<close> appends the qualifying directories; on any
  other tree it throws.
\<close>

lemma hasSvgFiles_qualifies: "hasSvgFiles es = qualifies es"
proof (induction es rule: hasSvgFiles.induct)
  case 1
  then show ?case by (simp add: qualifies_def)
next
  case (2 name node es)
  then show ?case by (cases node) (auto simp: qualifies_def)
qed

lemma subdirs_walkable:
  "list_all (\<lambda>p. walkable (snd p)) (subdirs dir es) \<longleftrightarrow> \<not> unreadableAmong es"
proof (induction dir es rule: subdirs.induct)
  case (1 dir)
  then show ?case by simp
next
  case (2 dir name node es)
  then show ?case by (cases node) auto
qed

lemma subdirs_allDirs:
  "concat (map (\<lambda>p. allDirs (fst p) (snd p)) (subdirs dir es)) = allDirsOf dir es"
proof (induction dir es rule: subdirs.induct)
  case (1 dir)
  then show ?case by simp
next
  case (2 dir name node es)
  then show ?case by (cases node) auto
qed

lemma svgDirs_Dir:
  "svgDirs dir (Dir es) =
     (if qualifies es then [dir] else []) @ concat (map (\<lambda>p. svgDirs (fst p) (snd p)) (subdirs dir es))"
proof -
  have "map fst (filter (\<lambda>p. qualifies (snd p)) (concat (map (\<lambda>p. allDirs (fst p) (snd p)) subs)))
        = concat (map (\<lambda>p. svgDirs (fst p) (snd p)) subs)" for subs
    by (induction subs) (simp_all add: svgDirs_def)
  from this [of "subdirs dir es"]
  have "map fst (filter (\<lambda>p. qualifies (snd p)) (allDirsOf dir es))
        = concat (map (\<lambda>p. svgDirs (fst p) (snd p)) (subdirs dir es))"
    by (simp only: subdirs_allDirs)
  moreover have "svgDirs dir (Dir es) =
      (if qualifies es then [dir] else []) @ map fst (filter (\<lambda>p. qualifies (snd p)) (allDirsOf dir es))"
    by (simp add: svgDirs_def)
  ultimately show ?thesis by simp
qed

lemma traverse_walk:
  "(walkable node \<longrightarrow> traverse dir node result = Inr (result @ svgDirs dir node))
   \<and> (\<not> walkable node \<longrightarrow> isl (traverse dir node result))"
  "(list_all (\<lambda>p. walkable (snd p)) subs \<longrightarrow>
      traverseAll subs result = Inr (result @ concat (map (\<lambda>p. svgDirs (fst p) (snd p)) subs)))
   \<and> (\<not> list_all (\<lambda>p. walkable (snd p)) subs \<longrightarrow> isl (traverseAll subs result))"
proof (induction dir node result and subs result rule: traverse_traverseAll.induct)
  case (1 dir es result)
  then show ?case
    by (simp add: subdirs_walkable svgDirs_Dir hasSvgFiles_qualifies)
next
  case (2 dir e result)
  then show ?case by simp
next
  case (3 dir result)
  then show ?case by simp
next
  case (4 dir result)
  then show ?case by simp
next
  case (5 result)
  then show ?case by simp
next
  case (6 sub rest result)
  show ?case
  proof (cases "walkable (snd sub)")
    case True
    then have t: "traverse (fst sub) (snd sub) result = Inr (result @ svgDirs (fst sub) (snd sub))"
      using 6(1) by simp
    show ?thesis
      using True t 6(2) [OF t] by simp
  next
    case False
    then have "isl (traverse (fst sub) (snd sub) result)"
      using 6(1) by simp
    then show ?thesis
      using False by (auto simp: isl_def)
  qed
qed

lemma findSvgDirectories_walkable:
  "walkable tree \<Longrightarrow> findSvgDirectories source tree = Inr (svgDirs source tree)"
  using traverse_walk(1) [of tree source "[]"] by (simp add: findSvgDirectories_def)

lemma findSvgDirectories_not_walkable:
  "\<not> walkable tree \<Longrightarrow> \<exists>e. findSvgDirectories source tree = Inl e"
  using traverse_walk(1) [of tree source "[]"] by (auto simp: findSvgDirectories_def isl_def)

lemma unreadable_not_walkable: "unreadableIn tree \<Longrightarrow> \<not> walkable tree"
  by (cases tree) auto

text \<open>
  The import loop: where an entry of the result comes from, when a directory is filed
  under its key, and when a key stays as it was.
\<close>

lemma map_of_assign:
  "map_of (assign k v al) = (if k = ''__proto__'' then map_of al else (map_of al)(k \<mapsto> v))"
  by (simp add: assign_def update_conv')

lemma importLoop_Cons_Inr:
  "importDirectorySync T dir False = Inr s \<Longrightarrow>
   importLoop T source prefixOpt (dir # dirs) acc out =
     importLoop T source prefixOpt dirs
       (if icons (export (fst (processIconSet T s))) \<noteq> []
        then assign (keyOf prefixOpt source dir) (export (fst (processIconSet T s))) acc
        else acc)
       (out @ snd (processIconSet T s))"
  by (simp add: keyOf_def Let_def split: prod.splits)

lemma importLoop_Cons_Inl:
  "importDirectorySync T dir False = Inl e \<Longrightarrow>
   importLoop T source prefixOpt (dir # dirs) acc out = (Inl e, out)"
  by simp

lemma importLoop_origin:
  "importLoop T source prefixOpt dirs acc out = (Inr m, out') \<Longrightarrow> map_of m k = Some c \<Longrightarrow>
   map_of acc k = Some c
   \<or> (\<exists>d \<in> set dirs. \<exists>s. keyOf prefixOpt source d = k \<and> importDirectorySync T d False = Inr s
         \<and> c = export (fst (processIconSet T s)) \<and> icons c \<noteq> [])"
proof (induction dirs arbitrary: acc out)
  case Nil
  then show ?case by simp
next
  case (Cons dir dirs)
  show ?case
  proof (cases "importDirectorySync T dir False")
    case (Inl e)
    then show ?thesis using Cons.prems by simp
  next
    case (Inr s)
    let ?c = "export (fst (processIconSet T s))"
    let ?acc = "if icons ?c \<noteq> [] then assign (keyOf prefixOpt source dir) ?c acc else acc"
    have "importLoop T source prefixOpt dirs ?acc (out @ snd (processIconSet T s)) = (Inr m, out')"
      using Cons.prems(1) importLoop_Cons_Inr [OF Inr] by simp
    from Cons.IH [OF this Cons.prems(2)]
    consider "map_of ?acc k = Some c"
      | "\<exists>d \<in> set dirs. \<exists>s. keyOf prefixOpt source d = k \<and> importDirectorySync T d False = Inr s
         \<and> c = export (fst (processIconSet T s)) \<and> icons c \<noteq> []"
      by blast
    then show ?thesis
    proof cases
      case 1
      then show ?thesis
        using Inr by (auto simp: map_of_assign split: if_splits)
    next
      case 2
      then show ?thesis by auto
    qed
  qed
qed

lemma importLoop_filed:
  assumes "importDirectorySync T d False = Inr s"
    and "icons (export (fst (processIconSet T s))) \<noteq> []"
    and "keyOf prefixOpt source d \<noteq> ''__proto__''"
  shows "importLoop T source prefixOpt dirs acc out = (Inr m, out') \<Longrightarrow>
   (\<forall>d' \<in> set dirs. keyOf prefixOpt source d' = keyOf prefixOpt source d \<longrightarrow> d' = d) \<Longrightarrow>
   d \<in> set dirs \<or> map_of acc (keyOf prefixOpt source d) = Some (export (fst (processIconSet T s))) \<Longrightarrow>
   map_of m (keyOf prefixOpt source d) = Some (export (fst (processIconSet T s)))"
proof (induction dirs arbitrary: acc out)
  case Nil
  then show ?case by simp
next
  case (Cons dir dirs)
  show ?case
  proof (cases "importDirectorySync T dir False")
    case (Inl e)
    then show ?thesis using Cons.prems by simp
  next
    case (Inr s')
    let ?c = "export (fst (processIconSet T s'))"
    let ?acc = "if icons ?c \<noteq> [] then assign (keyOf prefixOpt source dir) ?c acc else acc"
    have loop: "importLoop T source prefixOpt dirs ?acc (out @ snd (processIconSet T s')) = (Inr m, out')"
      using Cons.prems(1) importLoop_Cons_Inr [OF Inr] by simp
    have uniq: "\<forall>d' \<in> set dirs. keyOf prefixOpt source d' = keyOf prefixOpt source d \<longrightarrow> d' = d"
      using Cons.prems(2) by simp
    have "d \<in> set dirs \<or> map_of ?acc (keyOf prefixOpt source d) = Some (export (fst (processIconSet T s)))"
    proof (cases "keyOf prefixOpt source dir = keyOf prefixOpt source d")
      case True
      then have "dir = d" using Cons.prems(2) by simp
      then have "s' = s" using Inr assms(1) by simp
      then show ?thesis using True assms(2,3) by (simp add: map_of_assign)
    next
      case False
      then have "dir \<noteq> d" by auto
      then show ?thesis using Cons.prems(3) False by (auto simp: map_of_assign)
    qed
    then show ?thesis
      by (rule Cons.IH [OF loop uniq])
  qed
qed

lemma importLoop_absent:
  "importLoop T source prefixOpt dirs acc out = (Inr m, out') \<Longrightarrow>
   (\<forall>d \<in> set dirs. \<forall>s. keyOf prefixOpt source d = k \<and> importDirectorySync T d False = Inr s \<longrightarrow>
       icons (export (fst (processIconSet T s))) = []) \<Longrightarrow>
   map_of m k = map_of acc k"
proof (induction dirs arbitrary: acc out)
  case Nil
  then show ?case by simp
next
  case (Cons dir dirs)
  show ?case
  proof (cases "importDirectorySync T dir False")
    case (Inl e)
    then show ?thesis using Cons.prems by simp
  next
    case (Inr s)
    let ?c = "export (fst (processIconSet T s))"
    let ?acc = "if icons ?c \<noteq> [] then assign (keyOf prefixOpt source dir) ?c acc else acc"
    have loop: "importLoop T source prefixOpt dirs ?acc (out @ snd (processIconSet T s)) = (Inr m, out')"
      using Cons.prems(1) importLoop_Cons_Inr [OF Inr] by simp
    have rest: "\<forall>d \<in> set dirs. \<forall>s. keyOf prefixOpt source d = k \<and> importDirectorySync T d False = Inr s \<longrightarrow>
       icons (export (fst (processIconSet T s))) = []"
      using Cons.prems(2) by simp
    have "map_of ?acc k = map_of acc k"
      using Cons.prems(2) Inr by (auto simp: map_of_assign)
    then show ?thesis
      using Cons.IH [OF loop rest] by simp
  qed
qed

lemma importLoop_key_cong:
  "(\<And>p. collectionKey a p = collectionKey b p) \<Longrightarrow>
   importLoop T source a dirs acc out = importLoop T source b dirs acc out"
  by (induction dirs arbitrary: acc out) (auto simp: Let_def split: sum.splits prod.splits)

lemma importSvgCollections_Inr:
  assumes "importSvgCollections T source tree prefixOpt = (Inr m, out)"
  shows "findSvgDirectories source tree = Inr (svgDirs source tree)"
    and "importLoop T source prefixOpt (svgDirs source tree) [] [] = (Inr m, out)"
proof -
  have "walkable tree"
  proof (rule ccontr)
    assume "\<not> walkable tree"
    then obtain e where "findSvgDirectories source tree = Inl e"
      using findSvgDirectories_not_walkable by blast
    then show False
      using assms by (simp add: importSvgCollections_def)
  qed
  then show "findSvgDirectories source tree = Inr (svgDirs source tree)"
    by (rule findSvgDirectories_walkable)
  then show "importLoop T source prefixOpt (svgDirs source tree) [] [] = (Inr m, out)"
    using assms by (simp add: importSvgCollections_def)
qed

section \<open>The examples, evaluated\<close>

lemma lineSet_alert:
  "iconOutcome (exampleTools noLoader) (Icon alertDoc) =
     Updated (Element ''svg'' [(''viewBox'', ''0 0 16 16'')]
       [Element ''path'' [(''stroke'', ''currentColor''), (''d'', ''M8 5.333V8'')] []])"
  by code_simp

lemma mixedDoc_spec:
  "parseColorsSpec exampleLib ''currentColor'' callback mixedDoc =
     Inr (Element ''svg'' [(''viewBox'', ''0 0 16 16'')]
       [Element ''path'' [(''stroke'', ''currentColor''), (''fill'', ''none''), (''d'', ''M1 1'')] [],
        Element ''path'' [(''stroke'', ''#155EEF''), (''d'', ''M2 2'')] []])"
  by code_simp

lemma reject_import:
  "importSvgCollections (exampleTools rejectLoader) [''icons''] rejectTree None =
     (Inr [], [skipWarning ''broken'' (invalidColorMessage ''bogus'' ''fill'')])"
  by code_simp

lemma nest_import:
  "importSvgCollections (exampleTools nestLoader) [''icons''] nestTree (Some ''ic'') =
     (Inr [(''ic-a'', export (singleSet ''x'' alertOut)),
           (''ic-a-b'', export (singleSet ''y'' mixedOut))], [])"
  by code_simp

lemma nest_dirs: "svgDirs [''icons''] nestTree = [[''icons'', ''a''], [''icons'', ''a'', ''b'']]"
  by code_simp

lemma reject_dirs: "svgDirs [''icons''] rejectTree = [[''icons'', ''a'']]"
  by code_simp

lemma alert_spec: "parseColorsSpec exampleLib ''currentColor'' callback alertDoc = Inr alertOut"
  by code_simp

lemma blank_stages: "tryStages snapshotTools whiteDoc = Inr blankOut"
  by code_simp

lemma broken_stages:
  "tryStages (exampleTools noLoader) brokenDoc = Inl (invalidColorMessage ''bogus'' ''fill'')"
  by code_simp

lemma proto_import:
  "importSvgCollections (exampleTools protoLoader) [''icons''] protoTree None = (Inr [], [])"
  by code_simp

section \<open>The claims\<close>

text \<open>
  C1. The callback that \<^verbatim>\<open>processIconSet\<close> hands to the colour stage answers
  \<^verbatim>\<open>'currentColor'\<close> for a colour that compares equal to pure black, hands \<^verbatim>\<open>none\<close> and
  \<^verbatim>\<open>transparent\<close> back as they are, and hands back unchanged every other parsed colour
  that is neither black nor white. For an icon whose stages all return, with the
  colour stage as the spec describes it: every element of the document that leaves the
  colour stage is an element of the document that entered it, with each attribute kept
  but for the colour values that parse to black, which read \<^verbatim>\<open>currentColor\<close>; when the
  document has no white paint, no element is lost; and what \<^verbatim>\<open>processIconSet\<close> stores
  for the icon, and what is exported, is the body of that document after the two later
  stages.
\<close>

theorem C1_colors_in_processIconSet:
  assumes "distinct (map fst (entries s))"
    and "map_of (entries s) name = Some (Icon b)"
    and "loadSVG T b = Some svg"
    and "cleanupSVG T svg = Inr svg1"
    and "parseColors T = parseColorsSpec L"
    and "parseColorsSpec L ''currentColor'' callback svg1 = Inr svg2"
    and "runSVGO T svg2 = Inr svg3"
    and "deOptimisePaths T svg3 = Inr svg4"
  shows "(compareColors c1 blackColor \<longrightarrow>
        callback attr colorStr (Some c1) = Inr (ResString ''currentColor''))
     \<and> (c2 = NoColor \<or> c2 = TransparentColor \<longrightarrow>
        callback attr colorStr (Some c2) = Inr (ResColor c2))
     \<and> (\<not> compareColors c3 blackColor \<and> \<not> compareColors c3 whiteColor \<longrightarrow>
        callback attr colorStr (Some c3) = Inr (ResColor c3))
     \<and> (\<forall>e2 \<in> set (elements svg2). \<exists>e1 \<in> set (elements svg1).
           tag e2 = tag e1 \<and> attribs e2 = map (recolorAttr L) (attribs e1))
     \<and> (\<not> list_ex (paintedWith L (Some whiteColor)) (elements svg1) \<longrightarrow>
           map (\<lambda>e. (tag e, attribs e)) (elements svg2)
             = map (\<lambda>e. (tag e, map (recolorAttr L) (attribs e))) (elements svg1))
     \<and> (a \<in> set colorAttributes \<and> stringToColor L v = Some c \<and> compareColors c blackColor \<longrightarrow>
           recolorAttr L (a, v) = (a, ''currentColor''))
     \<and> (stringToColor L v' = Some c' \<and> \<not> compareColors c' blackColor \<longrightarrow>
           recolorAttr L (a', v') = (a', v'))
     \<and> map_of (entries (fst (processIconSet T s))) name = Some (Icon (getBody T svg4))
     \<and> (name, getBody T svg4) \<in> set (icons (export (fst (processIconSet T s))))"
proof -
  have cb: "(compareColors c1 blackColor \<longrightarrow>
        callback attr colorStr (Some c1) = Inr (ResString ''currentColor''))
     \<and> (c2 = NoColor \<or> c2 = TransparentColor \<longrightarrow>
        callback attr colorStr (Some c2) = Inr (ResColor c2))
     \<and> (\<not> compareColors c3 blackColor \<and> \<not> compareColors c3 whiteColor \<longrightarrow>
        callback attr colorStr (Some c3) = Inr (ResColor c3))"
    by (auto simp: callback_def compareColors_def blackColor_def)
  have can: "canonical L svg1 = Some svg2"
    using assms(6) by (rule parseColorsSpec_canonical)
  note els = canonical_elements(1) [OF can]
  have all: "\<not> list_ex (paintedWith L (Some whiteColor)) (elements svg1) \<longrightarrow>
           map (\<lambda>e. (tag e, attribs e)) (elements svg2)
             = map (\<lambda>e. (tag e, map (recolorAttr L) (attribs e))) (elements svg1)"
    using canonical_keeps_all(1) [OF _ can] by blast
  have "tryStages T svg = Inr svg4"
    using assms(4-8) by (simp add: tryStages_def)
  then have "iconOutcome T (Icon b) = Updated (getBody T svg4)"
    using assms(3) by (simp add: iconOutcome_def)
  note stored = accepted_present [OF assms(1,2) this]
  show ?thesis
    using cb els all stored recolorAttr_cases(1) [of a L v c] recolorAttr_cases(2) [of L v' c' a']
    by blast
qed

theorem C1_witness:
  "distinct (map fst (entries lineSet))
   \<and> map_of (entries lineSet) ''alert'' = Some (Icon alertDoc)
   \<and> loadSVG (exampleTools noLoader) alertDoc = Some alertDoc
   \<and> cleanupSVG (exampleTools noLoader) alertDoc = Inr alertDoc
   \<and> parseColors (exampleTools noLoader) = parseColorsSpec exampleLib
   \<and> parseColorsSpec exampleLib ''currentColor'' callback alertDoc = Inr alertOut
   \<and> runSVGO (exampleTools noLoader) alertOut = Inr alertOut
   \<and> deOptimisePaths (exampleTools noLoader) alertOut = Inr alertOut
   \<and> compareColors (RGBColor 0 0 0 1) blackColor
   \<and> callback ''stroke'' ''black'' (Some (RGBColor 0 0 0 1)) = Inr (ResString ''currentColor'')
   \<and> callback ''stroke'' ''black'' (Some NoColor) = Inr (ResColor NoColor)
   \<and> \<not> compareColors (RGBColor 21 94 239 1) blackColor
   \<and> \<not> compareColors (RGBColor 21 94 239 1) whiteColor
   \<and> callback ''stroke'' ''black'' (Some (RGBColor 21 94 239 1)) = Inr (ResColor (RGBColor 21 94 239 1))
   \<and> \<not> list_ex (paintedWith exampleLib (Some whiteColor)) (elements alertDoc)
   \<and> map (\<lambda>e. (tag e, attribs e)) (elements alertOut)
       = map (\<lambda>e. (tag e, map (recolorAttr exampleLib) (attribs e))) (elements alertDoc)
   \<and> ''stroke'' \<in> set colorAttributes
   \<and> stringToColor exampleLib ''black'' = Some (RGBColor 0 0 0 1)
   \<and> recolorAttr exampleLib (''stroke'', ''black'') = (''stroke'', ''currentColor'')
   \<and> stringToColor exampleLib ''#155EEF'' = Some (RGBColor 21 94 239 1)
   \<and> recolorAttr exampleLib (''stroke'', ''#155EEF'') = (''stroke'', ''#155EEF'')
   \<and> map_of (entries (fst (processIconSet (exampleTools noLoader) lineSet))) ''alert''
       = Some (Icon (getBody (exampleTools noLoader) alertOut))
   \<and> (''alert'', getBody (exampleTools noLoader) alertOut)
       \<in> set (icons (export (fst (processIconSet (exampleTools noLoader) lineSet))))
   \<and> getBody (exampleTools noLoader) alertOut \<noteq> alertDoc"
proof -
  have h1: "distinct (map fst (entries lineSet))"
    by (simp add: lineSet_def)
  have h2: "map_of (entries lineSet) ''alert'' = Some (Icon alertDoc)"
    by (simp add: lineSet_def)
  have h3: "loadSVG (exampleTools noLoader) alertDoc = Some alertDoc"
    by code_simp
  have h4: "cleanupSVG (exampleTools noLoader) alertDoc = Inr alertDoc"
    by code_simp
  have h5: "parseColors (exampleTools noLoader) = parseColorsSpec exampleLib"
    by (simp add: exampleTools_def)
  have h7: "runSVGO (exampleTools noLoader) alertOut = Inr alertOut"
    by (simp add: exampleTools_def)
  have h8: "deOptimisePaths (exampleTools noLoader) alertOut = Inr alertOut"
    by (simp add: exampleTools_def)
  have k1: "compareColors (RGBColor 0 0 0 1) blackColor"
    by (simp add: compareColors_def blackColor_def)
  have k2: "NoColor = NoColor \<or> NoColor = TransparentColor"
    by simp
  have k3: "\<not> compareColors (RGBColor 21 94 239 1) blackColor \<and> \<not> compareColors (RGBColor 21 94 239 1) whiteColor"
    by (simp add: compareColors_def blackColor_def whiteColor_def)
  have nw: "\<not> list_ex (paintedWith exampleLib (Some whiteColor)) (elements alertDoc)"
    by code_simp
  have p1: "''stroke'' \<in> set colorAttributes"
    by (simp add: colorAttributes_def)
  have p2: "stringToColor exampleLib ''black'' = Some (RGBColor 0 0 0 1)"
    by (simp add: exampleLib_def)
  have p3: "stringToColor exampleLib ''#155EEF'' = Some (RGBColor 21 94 239 1)"
    by (simp add: exampleLib_def)
  have diff: "getBody (exampleTools noLoader) alertOut \<noteq> alertDoc"
    by code_simp
  note c1 = C1_colors_in_processIconSet [OF h1 h2 h3 h4 h5 alert_spec h7 h8,
      of "RGBColor 0 0 0 1" "''stroke''" "''black''" NoColor "RGBColor 21 94 239 1"
         "''stroke''" "''black''" "RGBColor 0 0 0 1" "''#155EEF''" "RGBColor 21 94 239 1" "''stroke''"]
  note q1 = c1 [THEN conjunct1, rule_format, OF k1]
  note q2 = c1 [THEN conjunct2, THEN conjunct1, rule_format, OF k2]
  note q3 = c1 [THEN conjunct2, THEN conjunct2, THEN conjunct1, rule_format, OF k3]
  note q5 = c1 [THEN conjunct2, THEN conjunct2, THEN conjunct2, THEN conjunct2, THEN conjunct1,
      rule_format, OF nw]
  note q6 = c1 [THEN conjunct2, THEN conjunct2, THEN conjunct2, THEN conjunct2, THEN conjunct2,
      THEN conjunct1, rule_format, OF conjI [OF p1 conjI [OF p2 k1]]]
  note q7 = c1 [THEN conjunct2, THEN conjunct2, THEN conjunct2, THEN conjunct2, THEN conjunct2,
      THEN conjunct2, THEN conjunct1, rule_format, OF conjI [OF p3 k3 [THEN conjunct1]]]
  note q8 = c1 [THEN conjunct2, THEN conjunct2, THEN conjunct2, THEN conjunct2, THEN conjunct2,
      THEN conjunct2, THEN conjunct2]
  show ?thesis
    by (intro conjI h1 h2 h3 h4 h5 alert_spec h7 h8 k1 q1 q2 k3 [THEN conjunct1] k3 [THEN conjunct2]
        q3 nw q5 p1 p2 q6 p3 q7 q8 [THEN conjunct1] q8 [THEN conjunct2] diff)
qed

text \<open>
  C2, as the code has it. When the multi-collection import returns, the directories it
  found are exactly the directories of the tree that directly contain a file whose name
  ends in \<^verbatim>\<open>.svg\<close>, whatever their ancestors and descendants are. Every collection of
  the result is the export of one such directory, loaded alone and without its
  sub-directories; it has at least one icon, and its icons bear names of the icon set
  loaded from that directory. A found directory whose processed icon set is not empty,
  whose key no other found directory shares and whose key is not \<^verbatim>\<open>__proto__\<close>, is in
  the result under its key.
\<close>

theorem C2_qualifying_directories:
  assumes "importSvgCollections T source tree prefixOpt = (Inr m, out)"
  shows "findSvgDirectories source tree = Inr (svgDirs source tree)
     \<and> (\<forall>k c. map_of m k = Some c \<longrightarrow>
           (\<exists>d \<in> set (svgDirs source tree). \<exists>s.
              keyOf prefixOpt source d = k \<and> importDirectorySync T d False = Inr s
              \<and> c = export (fst (processIconSet T s)) \<and> icons c \<noteq> []
              \<and> fst ` set (icons c) \<subseteq> fst ` set (entries s)))
     \<and> (\<forall>d \<in> set (svgDirs source tree). \<forall>s.
           importDirectorySync T d False = Inr s
           \<and> icons (export (fst (processIconSet T s))) \<noteq> []
           \<and> keyOf prefixOpt source d \<noteq> ''__proto__''
           \<and> (\<forall>d' \<in> set (svgDirs source tree).
                 keyOf prefixOpt source d' = keyOf prefixOpt source d \<longrightarrow> d' = d)
           \<longrightarrow> map_of m (keyOf prefixOpt source d) = Some (export (fst (processIconSet T s))))"
proof -
  note run = importSvgCollections_Inr [OF assms]
  have origin: "\<exists>d \<in> set (svgDirs source tree). \<exists>s.
              keyOf prefixOpt source d = k \<and> importDirectorySync T d False = Inr s
              \<and> c = export (fst (processIconSet T s)) \<and> icons c \<noteq> []
              \<and> fst ` set (icons c) \<subseteq> fst ` set (entries s)"
    if look: "map_of m k = Some c" for k c
  proof -
    obtain d s where "d \<in> set (svgDirs source tree)" "keyOf prefixOpt source d = k"
      "importDirectorySync T d False = Inr s" "c = export (fst (processIconSet T s))" "icons c \<noteq> []"
      using importLoop_origin [OF run(2) look] by auto
    then show ?thesis
      using export_icon_names [of T s] by blast
  qed
  have filed: "map_of m (keyOf prefixOpt source d) = Some (export (fst (processIconSet T s)))"
    if "d \<in> set (svgDirs source tree)" "importDirectorySync T d False = Inr s"
      "icons (export (fst (processIconSet T s))) \<noteq> []"
      "keyOf prefixOpt source d \<noteq> ''__proto__''"
      "\<forall>d' \<in> set (svgDirs source tree). keyOf prefixOpt source d' = keyOf prefixOpt source d \<longrightarrow> d' = d"
    for d s
    using importLoop_filed [OF that(2,3,4) run(2) that(5)] that(1) by simp
  show ?thesis
    using run(1) origin filed by blast
qed

theorem C2_witness:
  "importSvgCollections (exampleTools nestLoader) [''icons''] nestTree (Some ''ic'') =
     (Inr [(''ic-a'', export (singleSet ''x'' alertOut)),
           (''ic-a-b'', export (singleSet ''y'' mixedOut))], [])
   \<and> svgDirs [''icons''] nestTree = [[''icons'', ''a''], [''icons'', ''a'', ''b'']]
   \<and> findSvgDirectories [''icons''] nestTree = Inr (svgDirs [''icons''] nestTree)
   \<and> importDirectorySync (exampleTools nestLoader) [''icons'', ''a''] False = Inr (singleSet ''x'' alertDoc)
   \<and> icons (export (fst (processIconSet (exampleTools nestLoader) (singleSet ''x'' alertDoc)))) \<noteq> []
   \<and> keyOf (Some ''ic'') [''icons''] [''icons'', ''a''] \<noteq> ''__proto__''
   \<and> distinct (map (keyOf (Some ''ic'') [''icons'']) (svgDirs [''icons''] nestTree))
   \<and> map_of [(''ic-a'', export (singleSet ''x'' alertOut)),
              (''ic-a-b'', export (singleSet ''y'' mixedOut))]
        (keyOf (Some ''ic'') [''icons''] [''icons'', ''a''])
       = Some (export (fst (processIconSet (exampleTools nestLoader) (singleSet ''x'' alertDoc))))"
proof -
  note c2 = C2_qualifying_directories [OF nest_import]
  have mem: "[''icons'', ''a''] \<in> set (svgDirs [''icons''] nestTree)"
    by (simp add: nest_dirs)
  have load: "importDirectorySync (exampleTools nestLoader) [''icons'', ''a''] False
      = Inr (singleSet ''x'' alertDoc)"
    by code_simp
  have some: "icons (export (fst (processIconSet (exampleTools nestLoader) (singleSet ''x'' alertDoc)))) \<noteq> []"
    by code_simp
  have keys: "distinct (map (keyOf (Some ''ic'') [''icons'']) (svgDirs [''icons''] nestTree))"
    by code_simp
  have uniq: "\<forall>d' \<in> set (svgDirs [''icons''] nestTree).
      keyOf (Some ''ic'') [''icons''] d' = keyOf (Some ''ic'') [''icons''] [''icons'', ''a'']
      \<longrightarrow> d' = [''icons'', ''a'']"
    using keys mem by (auto simp: distinct_map inj_on_def)
  have plain: "keyOf (Some ''ic'') [''icons''] [''icons'', ''a''] \<noteq> ''__proto__''"
    by code_simp
  note filed = c2 [THEN conjunct2, THEN conjunct2, rule_format, OF mem,
      OF conjI [OF load conjI [OF some conjI [OF plain uniq]]]]
  show ?thesis
    by (intro conjI nest_import nest_dirs c2 [THEN conjunct1] load some plain keys filed)
qed

text \<open>
  The claim as stated fails for a directory whose icons are all rejected: it qualifies,
  and the result has no collection for it.
\<close>

theorem C2_counterexample:
  "qualifies [(''broken.svg'', File)]
   \<and> findSvgDirectories [''icons''] rejectTree = Inr [[''icons'', ''a'']]
   \<and> importSvgCollections (exampleTools rejectLoader) [''icons''] rejectTree None =
       (Inr [], [skipWarning ''broken'' (invalidColorMessage ''bogus'' ''fill'')])"
  by code_simp

text \<open>
  C3, as the code has it. When a directory anywhere in the tree cannot be listed, the
  exception of \<^verbatim>\<open>readdirSync\<close> leaves \<^verbatim>\<open>findSvgDirectories\<close> and the import: the import fails
  with that error, returns no collection and has written nothing to the console.
\<close>

theorem C3_unreadable_directory_aborts:
  assumes "unreadableIn tree"
  shows "\<exists>e. findSvgDirectories source tree = Inl e
     \<and> importSvgCollections T source tree prefixOpt = (Inl e, [])"
proof -
  obtain e where "findSvgDirectories source tree = Inl e"
    using findSvgDirectories_not_walkable [OF unreadable_not_walkable [OF assms]] by blast
  then show ?thesis
    by (simp add: importSvgCollections_def)
qed

theorem C3_witness:
  "unreadableIn lockedTree
   \<and> (\<exists>e. findSvgDirectories [''icons''] lockedTree = Inl e
        \<and> importSvgCollections (exampleTools openLoader) [''icons''] lockedTree (Some ''ic'') = (Inl e, []))"
proof -
  have h: "unreadableIn lockedTree"
    by (simp add: lockedTree_def)
  from C3_unreadable_directory_aborts [OF h] h show ?thesis
    by (intro conjI)
qed

text \<open>
  The claim as stated fails: the readable sibling yields a collection when it is imported
  alone, and none when an unreadable directory stands beside it.
\<close>

theorem C3_counterexample:
  "unreadableIn lockedTree
   \<and> importSvgCollections (exampleTools openLoader) [''icons''] (Dir [(''open'', Dir [(''x.svg'', File)])]) None
       = (Inr [(''open'', export (singleSet ''x'' alertOut))], [])
   \<and> importSvgCollections (exampleTools openLoader) [''icons''] lockedTree None
       = (Inl ''EACCES: permission denied, scandir'', [])"
  by code_simp

text \<open>
  C4. The keys of distinct qualifying directories need not be distinct: the directories
  \<^verbatim>\<open>a/b\<close> and \<^verbatim>\<open>a-b\<close> both get the key \<^verbatim>\<open>a-b\<close>, and the collection of the second
  replaces the collection of the first in the result.
\<close>

theorem C4_key_collision:
  "findSvgDirectories [''icons''] clashTree = Inr [[''icons'', ''a'', ''b''], [''icons'', ''a-b'']]
   \<and> keyOf None [''icons''] [''icons'', ''a'', ''b''] = ''a-b''
   \<and> keyOf None [''icons''] [''icons'', ''a-b''] = ''a-b''
   \<and> importDirectorySync (exampleTools clashLoader) [''icons'', ''a'', ''b''] False = Inr (singleSet ''y'' alertDoc)
   \<and> export (fst (processIconSet (exampleTools clashLoader) (singleSet ''y'' alertDoc)))
       = export (singleSet ''y'' alertOut)
   \<and> importSvgCollections (exampleTools clashLoader) [''icons''] clashTree None
       = (Inr [(''a-b'', export (singleSet ''z'' mixedOut))], [])"
  by code_simp

text \<open>
  C5. An icon whose document, as it enters the colour stage, has a colour-bearing
  attribute with a value that does not parse: the callback throws for that value, the
  icon is removed from the icon set and is absent from the exported icons, a warning
  with the message of the exception is written, and every other entry of the set ends up
  as its own processing decides.
\<close>

theorem C5_unparseable_color_rejected:
  assumes "distinct (map fst (entries s))"
    and "map_of (entries s) name = Some (Icon b)"
    and "loadSVG T b = Some svg"
    and "cleanupSVG T svg = Inr svg1"
    and "parseColors T = parseColorsSpec L"
    and "invalidColors L svg1 = (attr, v) # rest"
  shows "callback attr v (stringToColor L v) = Inl (invalidColorMessage v attr)
     \<and> map_of (entries (fst (processIconSet T s))) name = None
     \<and> name \<notin> fst ` set (icons (export (fst (processIconSet T s))))
     \<and> skipWarning name (invalidColorMessage v attr) \<in> set (snd (processIconSet T s))
     \<and> (\<forall>n it. n \<noteq> name \<and> map_of (entries s) n = Some it \<longrightarrow>
           map_of (entries (fst (processIconSet T s))) n =
             (case iconOutcome T it of
                Untouched \<Rightarrow> Some it
              | Updated b' \<Rightarrow> Some (Icon b')
              | Rejected m \<Rightarrow> None))"
proof -
  have "isInvalidAttr L (attr, v)"
    using assms(6) by (rule invalidColors_invalid)
  then have cb: "callback attr v (stringToColor L v) = Inl (invalidColorMessage v attr)"
    by (simp add: isInvalidAttr_def callback_def)
  have "tryStages T svg = Inl (invalidColorMessage v attr)"
    using assms(4,5) parseColorsSpec_invalid [OF assms(6)] by (simp add: tryStages_def)
  then have rej: "iconOutcome T (Icon b) = Rejected (invalidColorMessage v attr)"
    using assms(3) by (simp add: iconOutcome_def)
  have others: "\<forall>n it. n \<noteq> name \<and> map_of (entries s) n = Some it \<longrightarrow>
           map_of (entries (fst (processIconSet T s))) n =
             (case iconOutcome T it of
                Untouched \<Rightarrow> Some it
              | Updated b' \<Rightarrow> Some (Icon b')
              | Rejected m \<Rightarrow> None)"
    using assms(1) by (auto simp: processIconSet_eq processed_lookup simp del: map_of_eq_Some_iff)
  show ?thesis
    using cb rejected_absent [OF assms(1,2) rej] others by blast
qed

theorem C5_witness:
  "distinct (map fst (entries lineSet))
   \<and> map_of (entries lineSet) ''broken'' = Some (Icon brokenDoc)
   \<and> loadSVG (exampleTools noLoader) brokenDoc = Some brokenDoc
   \<and> cleanupSVG (exampleTools noLoader) brokenDoc = Inr brokenDoc
   \<and> parseColors (exampleTools noLoader) = parseColorsSpec exampleLib
   \<and> invalidColors exampleLib brokenDoc = [(''fill'', ''bogus'')]
   \<and> callback ''fill'' ''bogus'' (stringToColor exampleLib ''bogus'') = Inl (invalidColorMessage ''bogus'' ''fill'')
   \<and> map_of (entries (fst (processIconSet (exampleTools noLoader) lineSet))) ''broken'' = None
   \<and> ''broken'' \<notin> fst ` set (icons (export (fst (processIconSet (exampleTools noLoader) lineSet))))
   \<and> skipWarning ''broken'' (invalidColorMessage ''bogus'' ''fill'')
        \<in> set (snd (processIconSet (exampleTools noLoader) lineSet))
   \<and> map_of (entries (fst (processIconSet (exampleTools noLoader) lineSet))) ''alert'' =
        Some (Icon (Element ''svg'' [(''viewBox'', ''0 0 16 16'')]
          [Element ''path'' [(''stroke'', ''currentColor''), (''d'', ''M8 5.333V8'')] []]))"
proof -
  have h1: "distinct (map fst (entries lineSet))"
    by (simp add: lineSet_def)
  have h2: "map_of (entries lineSet) ''broken'' = Some (Icon brokenDoc)"
    by (simp add: lineSet_def)
  have h3: "loadSVG (exampleTools noLoader) brokenDoc = Some brokenDoc"
    by (simp add: exampleTools_def brokenDoc_def)
  have h4: "cleanupSVG (exampleTools noLoader) brokenDoc = Inr brokenDoc"
    by (simp add: exampleTools_def brokenDoc_def shapeTags_def)
  have h5: "parseColors (exampleTools noLoader) = parseColorsSpec exampleLib"
    by (simp add: exampleTools_def)
  have h6: "invalidColors exampleLib brokenDoc = (''fill'', ''bogus'') # []"
    by (simp add: brokenDoc_def isInvalidAttr_def colorAttributes_def exampleLib_def)
  have a: "''alert'' \<noteq> ''broken'' \<and> map_of (entries lineSet) ''alert'' = Some (Icon alertDoc)"
    by (simp add: lineSet_def)
  note c5 = C5_unparseable_color_rejected [OF h1 h2 h3 h4 h5 h6]
  note others = c5 [THEN conjunct2, THEN conjunct2, THEN conjunct2, THEN conjunct2, rule_format, OF a]
  have alert: "map_of (entries (fst (processIconSet (exampleTools noLoader) lineSet))) ''alert'' =
        Some (Icon (Element ''svg'' [(''viewBox'', ''0 0 16 16'')]
          [Element ''path'' [(''stroke'', ''currentColor''), (''d'', ''M8 5.333V8'')] []]))"
    using others by (simp only: lineSet_alert outcome.case)
  note p1 = c5 [THEN conjunct1]
    and p2 = c5 [THEN conjunct2, THEN conjunct1]
    and p3 = c5 [THEN conjunct2, THEN conjunct2, THEN conjunct1]
    and p4 = c5 [THEN conjunct2, THEN conjunct2, THEN conjunct2, THEN conjunct1]
  show ?thesis
    by (intro conjI h1 h2 h3 h4 h5 h6 p1 p2 p3 p4 alert)
qed

text \<open>
  C6. When every directory with a given key has an icon set of which all icons are
  rejected, the result of the multi-collection import has no entry for that key, and no
  collection of the result is ever empty. The single-collection import of such an icon
  set returns its export with no icons.
\<close>

theorem C6_exhausted_collection:
  "(importSvgCollections T source tree prefixOpt = (Inr m, out)
      \<and> (\<forall>d \<in> set (svgDirs source tree). keyOf prefixOpt source d = k \<longrightarrow>
            (\<exists>s. importDirectorySync T d False = Inr s \<and> distinct (map fst (entries s))
                 \<and> allRejected T s))
      \<longrightarrow> map_of m k = None)
   \<and> (importSvgCollections T source tree prefixOpt = (Inr m, out) \<and> map_of m k' = Some c
      \<longrightarrow> icons c \<noteq> [])
   \<and> (importDirectorySync T source (case includeSubDirs of None \<Rightarrow> True | Some b \<Rightarrow> b) = Inr s
      \<and> distinct (map fst (entries s)) \<and> allRejected T s
      \<longrightarrow> fst (importSvgCollection T source includeSubDirs) = Inr (export (s\<lparr>entries := []\<rparr>))
          \<and> icons (export (s\<lparr>entries := []\<rparr>)) = [])"
proof -
  have absent: "map_of m k = None"
    if run: "importSvgCollections T source tree prefixOpt = (Inr m, out)"
      and rej: "\<forall>d \<in> set (svgDirs source tree). keyOf prefixOpt source d = k \<longrightarrow>
            (\<exists>s. importDirectorySync T d False = Inr s \<and> distinct (map fst (entries s))
                 \<and> allRejected T s)"
  proof -
    have "\<forall>d \<in> set (svgDirs source tree). \<forall>s.
        keyOf prefixOpt source d = k \<and> importDirectorySync T d False = Inr s \<longrightarrow>
        icons (export (fst (processIconSet T s))) = []"
      using rej allRejected_export(2) by fastforce
    from importLoop_absent [OF importSvgCollections_Inr(2) [OF run] this]
    show ?thesis by simp
  qed
  have nonempty: "icons c \<noteq> []"
    if run: "importSvgCollections T source tree prefixOpt = (Inr m, out)"
      and "map_of m k' = Some c"
    using importLoop_origin [OF importSvgCollections_Inr(2) [OF run] that(2)] by auto
  have single: "fst (importSvgCollection T source includeSubDirs) = Inr (export (s\<lparr>entries := []\<rparr>))
          \<and> icons (export (s\<lparr>entries := []\<rparr>)) = []"
    if "importDirectorySync T source (case includeSubDirs of None \<Rightarrow> True | Some b \<Rightarrow> b) = Inr s"
      and "distinct (map fst (entries s))" and "allRejected T s"
    using that(1) allRejected_export [OF that(2,3)]
    by (simp add: importSvgCollection_def export_def case_prod_unfold)
  show ?thesis
    using absent nonempty single by blast
qed

theorem C6_witness:
  "importSvgCollections (exampleTools rejectLoader) [''icons''] rejectTree None =
     (Inr [], [skipWarning ''broken'' (invalidColorMessage ''bogus'' ''fill'')])
   \<and> svgDirs [''icons''] rejectTree = [[''icons'', ''a'']]
   \<and> keyOf None [''icons''] [''icons'', ''a''] = ''a''
   \<and> importDirectorySync (exampleTools rejectLoader) [''icons'', ''a''] False = Inr (singleSet ''broken'' brokenDoc)
   \<and> distinct (map fst (entries (singleSet ''broken'' brokenDoc)))
   \<and> allRejected (exampleTools rejectLoader) (singleSet ''broken'' brokenDoc)
   \<and> map_of ([] :: (string \<times> element iconifyJSON) list) ''a'' = None
   \<and> importSvgCollections (exampleTools nestLoader) [''icons''] nestTree (Some ''ic'') =
     (Inr [(''ic-a'', export (singleSet ''x'' alertOut)),
           (''ic-a-b'', export (singleSet ''y'' mixedOut))], [])
   \<and> map_of [(''ic-a'', export (singleSet ''x'' alertOut)),
           (''ic-a-b'', export (singleSet ''y'' mixedOut))] ''ic-a'' = Some (export (singleSet ''x'' alertOut))
   \<and> icons (export (singleSet ''x'' alertOut)) \<noteq> []
   \<and> importDirectorySync (exampleTools rejectLoader) [''icons''] True = Inr (singleSet ''broken'' brokenDoc)
   \<and> fst (importSvgCollection (exampleTools rejectLoader) [''icons''] None)
       = Inr (export ((singleSet ''broken'' brokenDoc)\<lparr>entries := []\<rparr>))
   \<and> icons (export ((singleSet ''broken'' brokenDoc)\<lparr>entries := []\<rparr>)) = []"
proof -
  have key: "keyOf None [''icons''] [''icons'', ''a''] = ''a''"
    by code_simp
  have load: "importDirectorySync (exampleTools rejectLoader) [''icons'', ''a''] False
      = Inr (singleSet ''broken'' brokenDoc)"
    by code_simp
  have d: "distinct (map fst (entries (singleSet ''broken'' brokenDoc)))"
    by (simp add: singleSet_def)
  have rej: "allRejected (exampleTools rejectLoader) (singleSet ''broken'' brokenDoc)"
    by code_simp
  have all: "\<forall>d \<in> set (svgDirs [''icons''] rejectTree). keyOf None [''icons''] d = ''a'' \<longrightarrow>
      (\<exists>s. importDirectorySync (exampleTools rejectLoader) d False = Inr s
         \<and> distinct (map fst (entries s)) \<and> allRejected (exampleTools rejectLoader) s)"
    using load d rej by (simp add: reject_dirs)
  have look: "map_of [(''ic-a'', export (singleSet ''x'' alertOut)),
           (''ic-a-b'', export (singleSet ''y'' mixedOut))] ''ic-a'' = Some (export (singleSet ''x'' alertOut))"
    by simp
  have load1: "importDirectorySync (exampleTools rejectLoader) [''icons'']
       (case (None :: bool option) of None \<Rightarrow> True | Some b \<Rightarrow> b) = Inr (singleSet ''broken'' brokenDoc)"
    by code_simp
  have load1': "importDirectorySync (exampleTools rejectLoader) [''icons''] True
       = Inr (singleSet ''broken'' brokenDoc)"
    using load1 by simp
  note multi = C6_exhausted_collection
    [of "exampleTools rejectLoader" "[''icons'']" rejectTree None "[]"
        "[skipWarning ''broken'' (invalidColorMessage ''bogus'' ''fill'')]" "''a''"
        "''a''" "export (singleSet ''x'' alertOut)" None "singleSet ''broken'' brokenDoc"]
  note nest = C6_exhausted_collection
    [of "exampleTools nestLoader" "[''icons'']" nestTree "Some ''ic''"
        "[(''ic-a'', export (singleSet ''x'' alertOut)), (''ic-a-b'', export (singleSet ''y'' mixedOut))]"
        "[]" "''a''" "''ic-a''" "export (singleSet ''x'' alertOut)" None "singleSet ''broken'' brokenDoc"]
  note r1 = multi [THEN conjunct1, rule_format, OF conjI [OF reject_import all]]
  note r2 = nest [THEN conjunct2, THEN conjunct1, rule_format, OF conjI [OF nest_import look]]
  note r3 = multi [THEN conjunct2, THEN conjunct2, rule_format, OF conjI [OF load1 conjI [OF d rej]]]
  show ?thesis
    by (intro conjI reject_import reject_dirs key load d rej r1 nest_import look r2 load1'
        r3 [THEN conjunct1] r3 [THEN conjunct2])
qed

text \<open>
  C7, as the code has it. The callback answers \<^verbatim>\<open>'remove'\<close> for pure white, which asks
  the colour stage to delete the owning shape. \<^verbatim>\<open>processIconSet\<close> makes no check of
  what geometry is left: when the stages return, the icon is written back and exported
  with the body they produced, and it is rejected, removed and warned about exactly
  when a stage throws.
\<close>

theorem C7_white_marked_no_geometry_check:
  assumes "distinct (map fst (entries s))"
    and "map_of (entries s) name = Some (Icon b)"
    and "loadSVG T b = Some svg"
  shows "callback attr colorStr (Some whiteColor) = Inr (ResString ''remove'')
     \<and> (\<forall>svg'. tryStages T svg = Inr svg' \<longrightarrow>
           map_of (entries (fst (processIconSet T s))) name = Some (Icon (getBody T svg'))
           \<and> (name, getBody T svg') \<in> set (icons (export (fst (processIconSet T s)))))
     \<and> (\<forall>e. tryStages T svg = Inl e \<longrightarrow>
           map_of (entries (fst (processIconSet T s))) name = None
           \<and> name \<notin> fst ` set (icons (export (fst (processIconSet T s))))
           \<and> skipWarning name e \<in> set (snd (processIconSet T s)))"
proof -
  have cb: "callback attr colorStr (Some whiteColor) = Inr (ResString ''remove'')"
    by (simp add: callback_def compareColors_def whiteColor_def blackColor_def)
  have kept: "map_of (entries (fst (processIconSet T s))) name = Some (Icon (getBody T svg'))
           \<and> (name, getBody T svg') \<in> set (icons (export (fst (processIconSet T s))))"
    if ok: "tryStages T svg = Inr svg'" for svg'
  proof -
    have "iconOutcome T (Icon b) = Updated (getBody T svg')"
      using assms(3) ok by (simp add: iconOutcome_def)
    then show ?thesis
      using accepted_present [OF assms(1,2)] by blast
  qed
  have gone: "map_of (entries (fst (processIconSet T s))) name = None
           \<and> name \<notin> fst ` set (icons (export (fst (processIconSet T s))))
           \<and> skipWarning name e \<in> set (snd (processIconSet T s))"
    if bad: "tryStages T svg = Inl e" for e
  proof -
    have "iconOutcome T (Icon b) = Rejected e"
      using assms(3) bad by (simp add: iconOutcome_def)
    then show ?thesis
      using rejected_absent [OF assms(1,2)] by blast
  qed
  show ?thesis
    using cb kept gone by blast
qed

theorem C7_witness:
  "distinct (map fst (entries blankSet))
   \<and> map_of (entries blankSet) ''blank'' = Some (Icon whiteDoc)
   \<and> loadSVG snapshotTools whiteDoc = Some whiteDoc
   \<and> tryStages snapshotTools whiteDoc = Inr blankOut
   \<and> callback ''fill'' ''#fff'' (Some whiteColor) = Inr (ResString ''remove'')
   \<and> map_of (entries (fst (processIconSet snapshotTools blankSet))) ''blank''
       = Some (Icon (getBody snapshotTools blankOut))
   \<and> (''blank'', getBody snapshotTools blankOut)
       \<in> set (icons (export (fst (processIconSet snapshotTools blankSet))))
   \<and> distinct (map fst (entries lineSet))
   \<and> map_of (entries lineSet) ''broken'' = Some (Icon brokenDoc)
   \<and> loadSVG (exampleTools noLoader) brokenDoc = Some brokenDoc
   \<and> tryStages (exampleTools noLoader) brokenDoc = Inl (invalidColorMessage ''bogus'' ''fill'')
   \<and> map_of (entries (fst (processIconSet (exampleTools noLoader) lineSet))) ''broken'' = None
   \<and> ''broken'' \<notin> fst ` set (icons (export (fst (processIconSet (exampleTools noLoader) lineSet))))
   \<and> skipWarning ''broken'' (invalidColorMessage ''bogus'' ''fill'')
       \<in> set (snd (processIconSet (exampleTools noLoader) lineSet))"
proof -
  have h1: "distinct (map fst (entries blankSet))"
    by (simp add: blankSet_def)
  have h2: "map_of (entries blankSet) ''blank'' = Some (Icon whiteDoc)"
    by (simp add: blankSet_def)
  have h3: "loadSVG snapshotTools whiteDoc = Some whiteDoc"
    by code_simp
  have g1: "distinct (map fst (entries lineSet))"
    by (simp add: lineSet_def)
  have g2: "map_of (entries lineSet) ''broken'' = Some (Icon brokenDoc)"
    by (simp add: lineSet_def)
  have g3: "loadSVG (exampleTools noLoader) brokenDoc = Some brokenDoc"
    by code_simp
  note w = C7_white_marked_no_geometry_check [OF h1 h2 h3, of "''fill''" "''#fff''"]
  note b = C7_white_marked_no_geometry_check [OF g1 g2 g3, of "''fill''" "''#fff''"]
  note w1 = w [THEN conjunct1]
  note w2 = w [THEN conjunct2, THEN conjunct1, rule_format, OF blank_stages]
  note b3 = b [THEN conjunct2, THEN conjunct2, rule_format, OF broken_stages]
  show ?thesis
    by (intro conjI h1 h2 h3 blank_stages w1 w2 [THEN conjunct1] w2 [THEN conjunct2]
        g1 g2 g3 broken_stages b3 [THEN conjunct1] b3 [THEN conjunct2, THEN conjunct1]
        b3 [THEN conjunct2, THEN conjunct2])
qed

text \<open>
  The claim as stated fails with a colour stage that behaves as the test snapshot shows:
  an icon whose only shape is white is exported with a body without geometry, and a white
  shape inside a \<^verbatim>\<open>clipPath\<close> is still in the exported body.
\<close>

theorem C7_counterexample:
  "hasGeometry whiteDoc
   \<and> paintedWith exampleLib (Some whiteColor) (Element ''rect'' [(''width'', ''16''), (''fill'', ''#fff'')] [])
   \<and> processIconSet snapshotTools (singleSet ''blank'' whiteDoc) = (singleSet ''blank'' blankOut, [])
   \<and> \<not> hasGeometry blankOut
   \<and> icons (export (fst (processIconSet snapshotTools (singleSet ''blank'' whiteDoc))))
       = [(''blank'', blankOut)]
   \<and> processIconSet snapshotTools (singleSet ''thumbs'' thumbsDoc) = (singleSet ''thumbs'' thumbsOut, [])
   \<and> icons (export (fst (processIconSet snapshotTools (singleSet ''thumbs'' thumbsDoc))))
       = [(''thumbs'', thumbsOut)]
   \<and> list_ex (paintedWith exampleLib (Some whiteColor)) (elements thumbsOut)"
  by code_simp

text \<open>
  C8. Colour canonicalisation changes nothing on its own output. The callback hands
  \<^verbatim>\<open>currentColor\<close>, \<^verbatim>\<open>none\<close> and \<^verbatim>\<open>transparent\<close> back as they are, and every colour it has
  handed back once it hands back again; with a parser that reads the placeholder token
  as \<^verbatim>\<open>currentColor\<close>, a document that has passed the colour rewriter passes it again
  unchanged.
\<close>

theorem C8_color_canonicalization_idempotent:
  "callback attr colorStr (Some CurrentColor) = Inr (ResColor CurrentColor)
   \<and> callback attr colorStr (Some NoColor) = Inr (ResColor NoColor)
   \<and> callback attr colorStr (Some TransparentColor) = Inr (ResColor TransparentColor)
   \<and> (callback attr colorStr (Some c) = Inr (ResColor c') \<longrightarrow>
        callback attr' colorStr' (Some c') = Inr (ResColor c'))
   \<and> (stringToColor L ''currentColor'' = Some CurrentColor
        \<and> parseColorsSpec L defaultColor callback svg = Inr svg' \<longrightarrow>
        parseColorsSpec L defaultColor callback svg' = Inr svg')"
proof -
  have "callback attr colorStr (Some c) = Inr (ResColor c') \<longrightarrow>
        callback attr' colorStr' (Some c') = Inr (ResColor c')"
    by (auto simp: callback_def split: if_splits)
  moreover have "callback attr colorStr (Some CurrentColor) = Inr (ResColor CurrentColor)"
    by (simp add: callback_def compareColors_def blackColor_def whiteColor_def)
  moreover have "callback attr colorStr (Some NoColor) = Inr (ResColor NoColor)"
    and "callback attr colorStr (Some TransparentColor) = Inr (ResColor TransparentColor)"
    by (simp_all add: callback_def)
  ultimately show ?thesis
    using parseColorsSpec_again [of L defaultColor svg svg' defaultColor] by blast
qed

theorem C8_witness:
  "callback ''stroke'' ''#155EEF'' (Some (RGBColor 21 94 239 1)) = Inr (ResColor (RGBColor 21 94 239 1))
   \<and> stringToColor exampleLib ''currentColor'' = Some CurrentColor
   \<and> parseColorsSpec exampleLib ''currentColor'' callback mixedDoc =
     Inr (Element ''svg'' [(''viewBox'', ''0 0 16 16'')]
       [Element ''path'' [(''stroke'', ''currentColor''), (''fill'', ''none''), (''d'', ''M1 1'')] [],
        Element ''path'' [(''stroke'', ''#155EEF''), (''d'', ''M2 2'')] []])
   \<and> parseColorsSpec exampleLib ''currentColor'' callback
       (Element ''svg'' [(''viewBox'', ''0 0 16 16'')]
         [Element ''path'' [(''stroke'', ''currentColor''), (''fill'', ''none''), (''d'', ''M1 1'')] [],
          Element ''path'' [(''stroke'', ''#155EEF''), (''d'', ''M2 2'')] []]) =
     Inr (Element ''svg'' [(''viewBox'', ''0 0 16 16'')]
       [Element ''path'' [(''stroke'', ''currentColor''), (''fill'', ''none''), (''d'', ''M1 1'')] [],
        Element ''path'' [(''stroke'', ''#155EEF''), (''d'', ''M2 2'')] []])"
proof -
  have h1: "callback ''stroke'' ''#155EEF'' (Some (RGBColor 21 94 239 1)) = Inr (ResColor (RGBColor 21 94 239 1))"
    by (simp add: callback_def compareColors_def blackColor_def whiteColor_def)
  have h2: "stringToColor exampleLib ''currentColor'' = Some CurrentColor"
    by (simp add: exampleLib_def)
  note c8 = C8_color_canonicalization_idempotent
    [of "''stroke''" "''#155EEF''" "RGBColor 21 94 239 1" "RGBColor 21 94 239 1" "''stroke''" "''#155EEF''"
        exampleLib "''currentColor''" mixedDoc]
  note again = c8 [THEN conjunct2, THEN conjunct2, THEN conjunct2, THEN conjunct2, rule_format,
      OF conjI [OF h2 mixedDoc_spec]]
  note same = c8 [THEN conjunct2, THEN conjunct2, THEN conjunct2, THEN conjunct1, rule_format, OF h1]
  show ?thesis
    by (intro conjI same h2 mixedDoc_spec again)
qed

text \<open>
  C9. An icon for which \<^verbatim>\<open>toSVG\<close> gives no SVG instance is skipped: its entry is in the
  processed icon set as it was and in the exported icons, and the console output is the
  same as for the icon set without that entry, so no diagnostic is written for it.
\<close>

theorem C9_no_svg_instance_skipped:
  assumes "distinct (map fst (entries s))"
    and "map_of (entries s) name = Some (Icon b)"
    and "toSVG T s name = None"
  shows "map_of (entries (fst (processIconSet T s))) name = Some (Icon b)
     \<and> (name, b) \<in> set (icons (export (fst (processIconSet T s))))
     \<and> snd (processIconSet T s) =
         snd (processIconSet T (s\<lparr>entries := filter (\<lambda>e. fst e \<noteq> name) (entries s)\<rparr>))"
proof -
  have mem: "(name, Icon b) \<in> set (entries s)"
    using assms(2) by (rule map_of_SomeD)
  have load: "loadSVG T b = None"
    using assms(2,3) by (simp add: toSVG_def)
  then have un: "iconOutcome T (Icon b) = Untouched"
    by (simp add: iconOutcome_def)
  have only: "it = Icon b" if "(name, it) \<in> set (entries s)" for it
    using that assms(1,2) by simp
  have kept: "(name, Icon b) \<in> set (processed T (entries s))"
    using mem un by (rule processed_untouched)
  have d': "distinct (map fst (filter (\<lambda>e. fst e \<noteq> name) (entries s)))"
    using assms(1) by (simp add: distinct_map_filter)
  have rej: "rejected T (filter (\<lambda>e. fst e \<noteq> name) (entries s)) = rejected T (entries s)"
    by (rule rejected_filter_untouched) (use only un in auto)
  have "map_of (processed T (entries s)) name = Some (Icon b)"
    using kept processed_distinct [OF assms(1), of T] by simp
  then show ?thesis
    using kept rej
    by (simp add: processIconSet_eq [OF assms(1)] processIconSet_eq d' export_def exportIcons_mem)
qed

theorem C9_witness:
  "distinct (map fst (entries ghostSet))
   \<and> map_of (entries ghostSet) ''ghost'' = Some (Icon (Element ''g'' [] []))
   \<and> toSVG (exampleTools noLoader) ghostSet ''ghost'' = None
   \<and> map_of (entries (fst (processIconSet (exampleTools noLoader) ghostSet))) ''ghost''
       = Some (Icon (Element ''g'' [] []))
   \<and> (''ghost'', Element ''g'' [] []) \<in> set (icons (export (fst (processIconSet (exampleTools noLoader) ghostSet))))
   \<and> snd (processIconSet (exampleTools noLoader) ghostSet) =
         snd (processIconSet (exampleTools noLoader)
            (ghostSet\<lparr>entries := filter (\<lambda>e. fst e \<noteq> ''ghost'') (entries ghostSet)\<rparr>))"
proof -
  have h1: "distinct (map fst (entries ghostSet))"
    by (simp add: ghostSet_def)
  have h2: "map_of (entries ghostSet) ''ghost'' = Some (Icon (Element ''g'' [] []))"
    by (simp add: ghostSet_def)
  have h3: "toSVG (exampleTools noLoader) ghostSet ''ghost'' = None"
    by (simp add: toSVG_def ghostSet_def exampleTools_def)
  from C9_no_svg_instance_skipped [OF h1 h2 h3] h1 h2 h3 show ?thesis
    by blast
qed

text \<open>
  C10. With the empty string as prefix \<^verbatim>\<open>importSvgCollections\<close> returns what it returns
  with no prefix: the key is the joined path alone in both cases, and the prefix and the
  separator are put in front only for a prefix that is not empty.
\<close>

theorem C10_empty_prefix:
  "importSvgCollections T source tree (Some []) = importSvgCollections T source tree None
   \<and> collectionKey (Some []) p = p
   \<and> collectionKey None p = p
   \<and> collectionKey (Some (c # cs)) p = (c # cs) @ ''-'' @ p"
proof -
  have "importLoop T source (Some []) dirs [] [] = importLoop T source None dirs [] []" for dirs
    by (rule importLoop_key_cong) (simp add: collectionKey_def)
  then show ?thesis
    by (simp add: importSvgCollections_def collectionKey_def split: sum.splits)
qed

end
